theory Spec2Isabelle
  imports Complex_Main
begin

section \<open>Data model: cells, rows, frames, errors\<close>

text \<open>
  A pandas cell. \<open>IntC\<close> is a value of an integer dtype, \<open>NumC\<close> a finite float,
  \<open>InfC True\<close> and \<open>InfC False\<close> are the floats +inf and -inf, \<open>StrC\<close> is text
  (object and category values), \<open>YmC\<close> a year-month period and \<open>NA\<close> is NaN / None / NaT.
  Floats are modelled by rationals: rounding to float32 or float64 is not modelled.
\<close>

datatype cell = IntC int | NumC rat | InfC bool | StrC string | YmC int nat | NA

text \<open>
  A row maps a column name to its cell; a frame is the ordered list of its column names
  and its rows in index order. Only the cells of the listed columns are part of the frame.
\<close>

type_synonym row = "string \<Rightarrow> cell"

record frame =
  columns :: "string list"
  rows :: "row list"

text \<open>The exceptions the modelled code raises, with the column names they report.\<close>

datatype error =
    RuntimeError
  | KeyError string
  | MissingColumns "string list"
  | ValueError
  | TypeError
  | AttributeError
  | IndexError

definition column :: "string \<Rightarrow> frame \<Rightarrow> cell list" where
  "column c df = map (\<lambda>r. r c) (rows df)"

text \<open>
  A Python dict is a list of its items in insertion order. \<open>dict_update\<close> is
  \<open>d.update(other)\<close>: a key already present keeps its place and takes the new value, a
  new key goes to the end.
\<close>

fun dict_set :: "string \<Rightarrow> 'v \<Rightarrow> (string \<times> 'v) list \<Rightarrow> (string \<times> 'v) list" where
  "dict_set k v [] = [(k, v)]"
| "dict_set k v ((k', v') # d) = (if k' = k then (k, v) # d else (k', v') # dict_set k v d)"

fun dict_update :: "(string \<times> 'v) list \<Rightarrow> (string \<times> 'v) list \<Rightarrow> (string \<times> 'v) list" where
  "dict_update d [] = d"
| "dict_update d ((k, v) # kvs) = dict_update (dict_set k v d) kvs"

text \<open>
  What \<open>transform\<close> can be handed: a DataFrame, or the Python dict the endpoint builds,
  \<open>row.model_dump(exclude_none=True, by_alias=False).copy() | {"defaulted": 0}\<close>.
\<close>

datatype pyarg = Frame frame | Dict "(string \<times> cell) list"

text \<open>A cell of a numeric dtype: an integer or a float, the infinities and NaN included.\<close>

fun numeric :: "cell \<Rightarrow> bool" where
  "numeric (StrC s) = False"
| "numeric (YmC y m) = False"
| "numeric c = True"

definition numeric_column :: "string \<Rightarrow> frame \<Rightarrow> bool" where
  "numeric_column c df = (c \<in> set (columns df) \<and> list_all numeric (column c df))"

section \<open>data_loader.py\<close>

datatype dtype = Int64 | Int8 | Float32 | Category

definition DTYPES :: "(string \<times> dtype) list" where
  "DTYPES =
    [(''loan_id'', Int64), (''loan_amnt'', Float32), (''term'', Category),
     (''emp_length'', Float32), (''home_ownership'', Category), (''annual_inc'', Float32),
     (''purpose'', Category), (''dti'', Float32), (''delinq_2yrs'', Int8),
     (''open_acc'', Int8), (''pub_rec'', Int8), (''revol_util'', Float32),
     (''total_acc'', Int8), (''defaulted'', Int8)]"

definition REQUIRED_COLUMNS :: "string list" where
  "REQUIRED_COLUMNS = map fst DTYPES"

text \<open>
  \<open>df.astype(DTYPES, errors="raise")\<close>. The conversion of one value to a dtype is pandas'
  own; it is the parameter \<open>cast\<close>, with \<open>None\<close> where the conversion raises. The frame
  conversion raises as soon as one cell does.
\<close>

type_synonym cast = "dtype \<Rightarrow> cell \<Rightarrow> cell option"

fun astype_row :: "cast \<Rightarrow> (string \<times> dtype) list \<Rightarrow> row \<Rightarrow> row option" where
  "astype_row cast [] r = Some r"
| "astype_row cast ((c, dt) # ds) r =
     (case cast dt (r c) of
        None \<Rightarrow> None
      | Some v \<Rightarrow> astype_row cast ds (r(c := v)))"

fun astype_rows :: "cast \<Rightarrow> (string \<times> dtype) list \<Rightarrow> row list \<Rightarrow> row list option" where
  "astype_rows cast ds [] = Some []"
| "astype_rows cast ds (r # rs) =
     (case astype_row cast ds r of
        None \<Rightarrow> None
      | Some r' \<Rightarrow> (case astype_rows cast ds rs of None \<Rightarrow> None | Some rs' \<Rightarrow> Some (r' # rs')))"

definition astype :: "cast \<Rightarrow> (string \<times> dtype) list \<Rightarrow> frame \<Rightarrow> error + frame" where
  "astype cast ds df =
     (case filter (\<lambda>c. c \<notin> set (columns df)) (map fst ds) of
        c # _ \<Rightarrow> Inl (KeyError c)
      | [] \<Rightarrow>
         (case astype_rows cast ds (rows df) of
            None \<Rightarrow> Inl ValueError
          | Some rs \<Rightarrow> Inr (df\<lparr>rows := rs\<rparr>)))"

text \<open>
  \<open>df.drop_duplicates("loan_id")\<close> keeps the first row of every key value, in input order.
  \<open>seen\<close> holds the keys of the rows already passed.
\<close>

fun drop_dups :: "string \<Rightarrow> cell list \<Rightarrow> row list \<Rightarrow> row list" where
  "drop_dups k seen [] = []"
| "drop_dups k seen (r # rs) =
     (if r k \<in> set seen then drop_dups k seen rs else r # drop_dups k (r k # seen) rs)"

definition drop_duplicates :: "string \<Rightarrow> frame \<Rightarrow> error + frame" where
  "drop_duplicates k df =
     (if k \<in> set (columns df) then Inr (df\<lparr>rows := drop_dups k [] (rows df)\<rparr>)
      else Inl (KeyError k))"

text \<open>\<open>df.dropna()\<close> keeps the rows with no missing value in any column of the frame.\<close>

definition complete_row :: "string list \<Rightarrow> row \<Rightarrow> bool" where
  "complete_row cs r = list_all (\<lambda>c. r c \<noteq> NA) cs"

definition dropna :: "frame \<Rightarrow> frame" where
  "dropna df = df\<lparr>rows := filter (complete_row (columns df)) (rows df)\<rparr>"

text \<open>
  \<open>_clean\<close>: the missing-column check, the cast, then \<open>drop_duplicates("loan_id").dropna()\<close>;
  \<open>reset_index(drop=True)\<close> renumbers the rows, which the row list already does.
\<close>

definition clean :: "cast \<Rightarrow> frame \<Rightarrow> error + frame" where
  "clean cast df =
     (case filter (\<lambda>c. c \<notin> set (columns df)) REQUIRED_COLUMNS of
        m # ms \<Rightarrow> Inl (MissingColumns (m # ms))
      | [] \<Rightarrow>
         (case astype cast DTYPES df of
            Inl e \<Rightarrow> Inl e
          | Inr df1 \<Rightarrow>
             (case drop_duplicates ''loan_id'' df1 of
                Inl e \<Rightarrow> Inl e
              | Inr df2 \<Rightarrow> Inr (dropna df2))))"

text \<open>
  The cast on the values a typed file holds; it is the instance used on concrete frames
  below. An integer stays in an int64 column, wraps around to the range -128 to 127 in
  an int8 column (the cast of numpy does not check the range) and becomes a float in a
  float column; floats and NaN stay in a float column; a category column takes any
  value. A NaN or an infinity in an integer column raises. The instance covers no other
  conversion (a float in an integer column, text in a number column) and reports it as
  raising.
\<close>

fun cast_typed :: cast where
  "cast_typed Int64 (IntC i) = Some (IntC i)"
| "cast_typed Int8 (IntC i) = Some (IntC ((i + 128) mod 256 - 128))"
| "cast_typed Float32 (IntC i) = Some (NumC (of_int i))"
| "cast_typed Float32 (NumC x) = Some (NumC x)"
| "cast_typed Float32 (InfC s) = Some (InfC s)"
| "cast_typed Float32 NA = Some NA"
| "cast_typed Category c = Some c"
| "cast_typed _ _ = None"

text \<open>A row given by its fields, as a Python dict gives it; an absent field reads \<open>NA\<close>.\<close>

definition row_of :: "(string \<times> cell) list \<Rightarrow> row" where
  "row_of kvs = (\<lambda>c. case map_of kvs c of Some v \<Rightarrow> v | None \<Rightarrow> NA)"

text \<open>
  \<open>pd.read_csv(..., chunksize=n)\<close> yields the file's rows in frames of \<open>n\<close> rows, the
  last one shorter; a file with a header and no row yields one empty frame.
\<close>

function chunked :: "nat \<Rightarrow> 'a list \<Rightarrow> 'a list list" where
  "chunked n xs = (if n = 0 \<or> xs = [] then [] else take n xs # chunked n (drop n xs))"
  by pat_completeness auto
termination
  by (relation "measure (\<lambda>(n, xs). length xs)") auto

declare chunked.simps [simp del]

definition csv_chunks :: "nat \<Rightarrow> frame \<Rightarrow> frame list" where
  "csv_chunks n df =
     (if rows df = [] then [df] else map (\<lambda>rs. df\<lparr>rows := rs\<rparr>) (chunked n (rows df)))"

text \<open>
  The readers. \<open>CsvReader\<close> stands for the CSV branches of the local, HTTP and S3 readers
  and holds the file as \<open>read_csv\<close> parses it; \<open>ParquetReader\<close> for the parquet branches;
  \<open>MemReader\<close> for \<open>DataLoader.from_df\<close>. \<open>read\<close> lists what the generator yields: one
  cleaned frame per chunk of a CSV file, one cleaned frame for the whole of a parquet file
  or an in-memory frame. Without a chunk size \<open>read_csv\<close> returns a frame, and the loop
  over it runs over its column names, each of which \<open>_clean\<close> rejects.
\<close>

datatype reader = CsvReader frame | ParquetReader frame | MemReader frame

fun read :: "cast \<Rightarrow> reader \<Rightarrow> nat option \<Rightarrow> (error + frame) list" where
  "read cast (MemReader df) chunksize = [clean cast df]"
| "read cast (ParquetReader df) chunksize =
     [case astype cast DTYPES df of Inl e \<Rightarrow> Inl e | Inr df1 \<Rightarrow> clean cast df1]"
| "read cast (CsvReader df) None = map (\<lambda>c. Inl AttributeError) (columns df)"
| "read cast (CsvReader df) (Some n) =
     (if n = 0 then [Inl ValueError] else map (clean cast) (csv_chunks n df))"

definition iter_chunks :: "cast \<Rightarrow> reader \<Rightarrow> nat \<Rightarrow> (error + frame) list" where
  "iter_chunks cast rd chunksize = read cast rd (Some chunksize)"

text \<open>
  \<open>pd.concat(frames, ignore_index=True)\<close>: the first exception of the generator is raised;
  no frame at all is a ValueError; otherwise the columns are the union of the frames'
  columns in order of first appearance (\<open>unique\<close>), the rows follow each other, and
  a row reads \<open>NA\<close> in a column its frame does not have.
\<close>

definition unique :: "'a list \<Rightarrow> 'a list" where
  "unique xs = rev (remdups (rev xs))"

fun collect :: "(error + 'a) list \<Rightarrow> error + 'a list" where
  "collect [] = Inr []"
| "collect (Inl e # xs) = Inl e"
| "collect (Inr x # xs) = (case collect xs of Inl e \<Rightarrow> Inl e | Inr ys \<Rightarrow> Inr (x # ys))"

definition restrict_row :: "string list \<Rightarrow> row \<Rightarrow> row" where
  "restrict_row cs r = (\<lambda>c. if c \<in> set cs then r c else NA)"

definition pd_concat :: "(error + frame) list \<Rightarrow> error + frame" where
  "pd_concat gen =
     (case collect gen of
        Inl e \<Rightarrow> Inl e
      | Inr [] \<Rightarrow> Inl ValueError
      | Inr (f # fs) \<Rightarrow>
          Inr \<lparr>columns = unique (concat (map columns (f # fs))),
               rows = concat (map (\<lambda>g. map (restrict_row (columns g)) (rows g)) (f # fs))\<rparr>)"

section \<open>data_cleaning.py\<close>

text \<open>
  \<open>load_and_clean_data\<close> on the frame \<open>pd.read_csv\<close> gives: \<open>dropna\<close>, then the label
  \<open>Loan_Status\<close> is mapped with \<open>{'Y': 1, 'N': 0}\<close>; \<open>Series.map\<close> gives NaN for a value
  that is not a key of the dict.
\<close>

definition loan_status :: "cell \<Rightarrow> cell" where
  "loan_status c = (if c = StrC ''Y'' then IntC 1 else if c = StrC ''N'' then IntC 0 else NA)"

definition load_and_clean_data :: "frame \<Rightarrow> error + frame" where
  "load_and_clean_data df =
     (let d = dropna df in
      if ''Loan_Status'' \<in> set (columns d)
      then Inr (d\<lparr>rows := map (\<lambda>r. r(''Loan_Status'' := loan_status (r ''Loan_Status''))) (rows d)\<rparr>)
      else Inl (KeyError ''Loan_Status''))"

text \<open>A file of two complete records; the label of the second is neither \<open>Y\<close> nor \<open>N\<close>.\<close>

definition status_csv :: frame where
  "status_csv =
     \<lparr>columns = [''Loan_ID'', ''Loan_Status''],
      rows = [row_of [(''Loan_ID'', StrC ''LP001''), (''Loan_Status'', StrC ''Y'')],
              row_of [(''Loan_ID'', StrC ''LP002''), (''Loan_Status'', StrC ''Yes'')]]\<rparr>"

section \<open>train.py: loading\<close>

text \<open>\<open>df.pop(name)\<close>: the column's cells, and the frame without the column.\<close>

definition pop :: "string \<Rightarrow> frame \<Rightarrow> error + (cell list \<times> frame)" where
  "pop c df =
     (if c \<in> set (columns df)
      then Inr (column c df, df\<lparr>columns := filter (\<lambda>x. x \<noteq> c) (columns df)\<rparr>)
      else Inl (KeyError c))"

text \<open>
  Lines 47 to 49: \<open>df_full = pd.concat(loader.iter_chunks(50_000), ignore_index=True)\<close>
  and \<open>y_full = df_full.pop("defaulted")\<close>.
\<close>

definition df_full :: "cast \<Rightarrow> reader \<Rightarrow> error + frame" where
  "df_full cast rd = pd_concat (iter_chunks cast rd 50000)"

definition load_training :: "cast \<Rightarrow> reader \<Rightarrow> error + (cell list \<times> frame)" where
  "load_training cast rd =
     (case df_full cast rd of Inl e \<Rightarrow> Inl e | Inr df \<Rightarrow> pop ''defaulted'' df)"

text \<open>
  A well-typed loan record with a given identifier and debt-to-income value, and a CSV
  file of 50001 records whose last record repeats the identifier of the first.
\<close>

definition loan :: "int \<Rightarrow> cell \<Rightarrow> row" where
  "loan i d = row_of
     [(''loan_id'', IntC i), (''loan_amnt'', NumC 1000), (''term'', StrC ''36 months''),
      (''emp_length'', NumC 3), (''home_ownership'', StrC ''RENT''), (''annual_inc'', NumC 50000),
      (''purpose'', StrC ''car''), (''dti'', d), (''delinq_2yrs'', IntC 0),
      (''open_acc'', IntC 5), (''pub_rec'', IntC 0), (''revol_util'', NumC 30),
      (''total_acc'', IntC 9), (''defaulted'', IntC 0), (''issue_d'', StrC ''2020-01-15'')]"

definition loan_columns :: "string list" where
  "loan_columns = REQUIRED_COLUMNS @ [''issue_d'']"

definition first_chunk :: "row list" where
  "first_chunk = map (\<lambda>i. loan (int i) (NumC 10)) [0..<50000]"

definition csv_repeated_id :: frame where
  "csv_repeated_id = \<lparr>columns = loan_columns, rows = first_chunk @ [loan 0 (NumC 10)]\<rparr>"

text \<open>A batch of three records: the second repeats the first's identifier, the third has no dti.\<close>

definition batch3 :: frame where
  "batch3 = \<lparr>columns = loan_columns,
             rows = [loan 1 (NumC 10), loan 1 (NumC 20), loan 2 NA]\<rparr>"

section \<open>feature_engineer.py\<close>

definition OHE_COLS :: "string list" where
  "OHE_COLS = [''term'', ''home_ownership'', ''purpose'']"

definition TARGET_ENC_COLS :: "string list" where
  "TARGET_ENC_COLS = [''emp_length'']"

definition WOE_COLS :: "string list" where
  "WOE_COLS = [''dti'', ''revol_util'']"

text \<open>
  What \<open>transform\<close> takes from outside the code of the repository.

  \<open>MACRO_DF\<close> is read from data/macro.csv, which the repository does not hold: the table
  is a parameter, given by its columns (the columns of the file, \<open>date\<close> among them; the
  key \<open>ym\<close> is the index) and its row for a year-month, if it has one (one row per
  calendar month, as the specification describes the table). \<open>to_period\<close> is
  \<open>pd.to_datetime(...).dt.to_period("M")\<close> on one cell: a \<open>YmC\<close> cell, \<open>NA\<close> for a missing
  date, or \<open>None\<close> where pandas raises.

  \<open>qcut\<close> is \<open>pd.qcut(series, q=bins, duplicates="drop")\<close> read through \<open>.cat.codes\<close>: called
  with a series and a number of quantiles, pandas computes the edges from the values of
  that series in float64 arithmetic and gives every value the code of its bucket, -1 for
  a value in no bucket; or it raises. The result is the function from a value of the
  series to its code, or the exception.
\<close>

record environment =
  macro_columns :: "string list"
  macro_row :: "int \<times> nat \<Rightarrow> row option"
  to_period :: "cell \<Rightarrow> cell option"
  qcut :: "cell list \<Rightarrow> nat \<Rightarrow> error + (cell \<Rightarrow> int)"

subsection \<open>Frame primitives\<close>

text \<open>
  \<open>df[name] = values\<close> overwrites the column in place or appends it;
  \<open>df.drop(columns=names)\<close> removes columns.
\<close>

definition set_col :: "string \<Rightarrow> cell list \<Rightarrow> frame \<Rightarrow> frame" where
  "set_col name vals df =
     \<lparr>columns = (if name \<in> set (columns df) then columns df else columns df @ [name]),
      rows = map2 (\<lambda>r v. r(name := v)) (rows df) vals\<rparr>"

definition drop_cols :: "string list \<Rightarrow> frame \<Rightarrow> frame" where
  "drop_cols names df = df\<lparr>columns := filter (\<lambda>c. c \<notin> set names) (columns df)\<rparr>"

subsection \<open>Float arithmetic\<close>

text \<open>
  The float value of a cell, and IEEE arithmetic on it with rationals for the finite
  values: a division by zero gives an infinity or NaN, it does not raise. Text has no
  float value (the operation raises TypeError).
\<close>

datatype fl = Fin rat | Inf bool | NaN

fun to_fl :: "cell \<Rightarrow> fl option" where
  "to_fl (IntC i) = Some (Fin (of_int i))"
| "to_fl (NumC x) = Some (Fin x)"
| "to_fl (InfC s) = Some (Inf s)"
| "to_fl NA = Some NaN"
| "to_fl (StrC s) = None"
| "to_fl (YmC y m) = None"

fun of_fl :: "fl \<Rightarrow> cell" where
  "of_fl (Fin x) = NumC x"
| "of_fl (Inf s) = InfC s"
| "of_fl NaN = NA"

fun fadd :: "fl \<Rightarrow> fl \<Rightarrow> fl" where
  "fadd (Fin a) (Fin b) = Fin (a + b)"
| "fadd (Inf s) (Inf t) = (if s = t then Inf s else NaN)"
| "fadd (Inf s) (Fin b) = Inf s"
| "fadd (Fin a) (Inf t) = Inf t"
| "fadd _ _ = NaN"

fun fmul :: "fl \<Rightarrow> fl \<Rightarrow> fl" where
  "fmul (Fin a) (Fin b) = Fin (a * b)"
| "fmul (Inf s) (Inf t) = Inf (s = t)"
| "fmul (Inf s) (Fin b) = (if b = 0 then NaN else Inf (s = (0 < b)))"
| "fmul (Fin a) (Inf t) = (if a = 0 then NaN else Inf (t = (0 < a)))"
| "fmul _ _ = NaN"

fun fdiv :: "fl \<Rightarrow> fl \<Rightarrow> fl" where
  "fdiv (Fin a) (Fin b) =
     (if b = 0 then (if a = 0 then NaN else Inf (0 < a)) else Fin (a / b))"
| "fdiv (Fin a) (Inf t) = Fin 0"
| "fdiv (Inf s) (Fin b) = Inf (s = (0 \<le> b))"
| "fdiv _ _ = NaN"

fun those_fl :: "cell list \<Rightarrow> error + fl list" where
  "those_fl [] = Inr []"
| "those_fl (c # cs) =
     (case to_fl c of
        None \<Rightarrow> Inl TypeError
      | Some x \<Rightarrow> (case those_fl cs of Inl e \<Rightarrow> Inl e | Inr xs \<Rightarrow> Inr (x # xs)))"

subsection \<open>Target encoding\<close>

text \<open>
  A fitted \<open>TargetEncoder\<close>: the value of every category seen at fit time and the global
  label mean, which unseen and missing categories get (\<open>handle_unknown\<close> and
  \<open>handle_missing\<close> are left at \<open>value\<close>). How category_encoders blends a category's mean
  with the global mean is inside that library: the rule is the parameter \<open>smooth\<close>, called
  with the constructor's \<open>smoothing=0.25\<close>, the category's count and mean, and the global mean.
\<close>

record target_encoder =
  te_mapping :: "(cell \<times> rat) list"
  te_prior :: rat

type_synonym smoother = "rat \<Rightarrow> nat \<Rightarrow> rat \<Rightarrow> rat \<Rightarrow> rat"

definition mean :: "rat list \<Rightarrow> rat" where
  "mean ys = sum_list ys / of_nat (length ys)"

fun label_values :: "cell list \<Rightarrow> error + rat list" where
  "label_values [] = Inr []"
| "label_values (IntC i # cs) =
     (case label_values cs of Inl e \<Rightarrow> Inl e | Inr ys \<Rightarrow> Inr (of_int i # ys))"
| "label_values (NumC x # cs) =
     (case label_values cs of Inl e \<Rightarrow> Inl e | Inr ys \<Rightarrow> Inr (x # ys))"
| "label_values (c # cs) = Inl ValueError"

definition labels_of :: "cell \<Rightarrow> cell list \<Rightarrow> rat list \<Rightarrow> rat list" where
  "labels_of c xs ys = map snd (filter (\<lambda>(x, y). x = c) (zip xs ys))"

definition te_fit :: "smoother \<Rightarrow> rat \<Rightarrow> cell list \<Rightarrow> cell list \<Rightarrow> error + target_encoder" where
  "te_fit smooth smoothing xs y =
     (if xs = [] \<or> length y \<noteq> length xs then Inl ValueError
      else case label_values y of
        Inl e \<Rightarrow> Inl e
      | Inr ys \<Rightarrow>
          Inr \<lparr>te_mapping =
                 map (\<lambda>c. (c, smooth smoothing (length (labels_of c xs ys))
                                 (mean (labels_of c xs ys)) (mean ys)))
                     (filter (\<lambda>c. c \<noteq> NA) (unique xs)),
               te_prior = mean ys\<rparr>)"

definition te_transform :: "target_encoder \<Rightarrow> cell list \<Rightarrow> cell list" where
  "te_transform enc xs =
     map (\<lambda>x. NumC (case map_of (te_mapping enc) x of Some v \<Rightarrow> v | None \<Rightarrow> te_prior enc)) xs"

text \<open>
  The smoothing-weighted mean the specification gives in its section 4.2,
  \<open>(category_count * category_mean + smoothing_weight * global_mean) /
  (category_count + smoothing_weight)\<close>. It is not the rule of category_encoders, which
  is not part of the repository. It stands for \<open>smooth\<close> in the one concrete call of
  \<open>fit\<close> below, on a frame whose single category has the global mean as its mean, where
  every blend of the two means gives that same value.
\<close>

definition smoothed_mean :: smoother where
  "smoothed_mean w n m g = (of_nat n * m + w * g) / (of_nat n + w)"

subsection \<open>One-hot encoding\<close>

text \<open>
  A fitted \<open>OneHotEncoder\<close>: for each of its input columns the categories seen at fit
  time, sorted (\<open>categories_\<close>). The model covers text categories, which is what the
  category dtype of the loader and the \<open>str\<close> fields of the request give; strings are
  ordered by their character codes.
\<close>

record one_hot_encoder =
  categories :: "string list list"

fun str_le :: "string \<Rightarrow> string \<Rightarrow> bool" where
  "str_le [] t = True"
| "str_le (a # s) [] = False"
| "str_le (a # s) (b # t) =
     (if a = b then str_le s t else (of_char a :: nat) < of_char b)"

fun str_insert :: "string \<Rightarrow> string list \<Rightarrow> string list" where
  "str_insert x [] = [x]"
| "str_insert x (y # ys) = (if str_le x y then x # y # ys else y # str_insert x ys)"

definition str_sort :: "string list \<Rightarrow> string list" where
  "str_sort xs = foldr str_insert xs []"

fun text_values :: "cell list \<Rightarrow> error + string list" where
  "text_values [] = Inr []"
| "text_values (StrC s # cs) =
     (case text_values cs of Inl e \<Rightarrow> Inl e | Inr ss \<Rightarrow> Inr (s # ss))"
| "text_values (c # cs) = Inl TypeError"

fun ohe_fit_cols :: "string list \<Rightarrow> frame \<Rightarrow> error + string list list" where
  "ohe_fit_cols [] df = Inr []"
| "ohe_fit_cols (c # cs) df =
     (case text_values (column c df) of
        Inl e \<Rightarrow> Inl e
      | Inr ss \<Rightarrow>
         (case ohe_fit_cols cs df of
            Inl e \<Rightarrow> Inl e
          | Inr rest \<Rightarrow> Inr (str_sort (remdups ss) # rest)))"

text \<open>\<open>get_feature_names_out(OHE_COLS)\<close>: \<open>column_category\<close>, columns in order, categories in order.\<close>

definition ohe_pairs :: "one_hot_encoder \<Rightarrow> (string \<times> string) list" where
  "ohe_pairs enc = concat (map2 (\<lambda>col cats. map (\<lambda>c. (col, c)) cats) OHE_COLS (categories enc))"

definition feature_name :: "string \<times> string \<Rightarrow> string" where
  "feature_name p = fst p @ ''_'' @ snd p"

definition get_feature_names_out :: "one_hot_encoder \<Rightarrow> string list" where
  "get_feature_names_out enc = map feature_name (ohe_pairs enc)"

text \<open>
  One indicator column of \<open>self._ohe.transform(...)\<close>: 1 where the row has the
  category, 0 elsewhere; a category not seen at fit time has no column, so its row is
  0 in all of them (\<open>handle_unknown="ignore"\<close>).
\<close>

definition indicator :: "string \<times> string \<Rightarrow> row list \<Rightarrow> cell list" where
  "indicator p rs = map (\<lambda>r. IntC (if r (fst p) = StrC (snd p) then 1 else 0)) rs"

subsection \<open>Quantile buckets\<close>

text \<open>
  \<open>_woe_bucket(series, bins=10)\<close>: \<open>cats = pd.qcut(series, q=bins, duplicates="drop")\<close> and
  \<open>cats.cat.codes.astype("int8")\<close>. The series is the only data the call is given. The
  codes lie between -1 and \<open>bins - 1\<close>, so the cast to int8 leaves them as they are.
\<close>

definition woe_bucket :: "environment \<Rightarrow> cell list \<Rightarrow> nat \<Rightarrow> error + cell list" where
  "woe_bucket env series bins =
     (case qcut env series bins of
        Inl e \<Rightarrow> Inl e
      | Inr code \<Rightarrow> Inr (map (\<lambda>v. IntC (code v)) series))"

text \<open>
  An instance of \<open>qcut\<close> in exact arithmetic, used on the concrete frames below. The edges
  are the quantiles 0, 1/bins, ..., 1 of the values of the series (NaN left out), by
  linear interpolation between the sorted values; equal edges are merged. A value's code
  is the index of the right-closed interval between two edges it falls in, the lowest
  edge included in the first interval; NaN, and every value when fewer than two edges
  are left, has the code -1. A series with no value but NaN, the empty one included,
  raises IndexError, and text raises TypeError.

  pandas computes the edges in float64, where a quantile position \<open>k/bins * (n - 1)\<close>
  can come out a rounding error above the exact one and keep apart two edges that are
  equal in exact arithmetic. The instance gives the codes of pandas on the series where
  the rounding changes neither which edges are equal nor on which side of an edge a
  value lies; it is used on the columns of the concrete frames below only (two distinct
  values: codes 0 and 9; one value repeated: code -1). An infinite value is outside the
  instance and reported as ValueError.
\<close>

definition quantile :: "rat list \<Rightarrow> rat \<Rightarrow> rat" where
  "quantile s q =
     (let n = length s;
          pos = q * of_nat (n - 1);
          lo = nat \<lfloor>pos\<rfloor>;
          hi = min (lo + 1) (n - 1)
      in s ! lo + (s ! hi - s ! lo) * (pos - of_nat lo))"

definition qcut_bins :: "rat list \<Rightarrow> nat \<Rightarrow> rat list" where
  "qcut_bins vals bins =
     (if vals = [] then []
      else unique (map (\<lambda>k. quantile (sort vals) (of_nat k / of_nat bins)) [0..<bins + 1]))"

definition bin_code :: "rat list \<Rightarrow> rat option \<Rightarrow> int" where
  "bin_code edges v =
     (case v of
        None \<Rightarrow> - 1
      | Some x \<Rightarrow>
         (case edges of
            [] \<Rightarrow> - 1
          | e # es \<Rightarrow>
             (let ids = (if x = e then 1 else length (filter (\<lambda>b. b < x) edges))
              in if ids = 0 \<or> ids = length edges then - 1 else int ids - 1)))"

fun finite_value :: "cell \<Rightarrow> rat option" where
  "finite_value (IntC i) = Some (of_int i)"
| "finite_value (NumC x) = Some x"
| "finite_value c = None"

fun series_values :: "cell list \<Rightarrow> error + rat list" where
  "series_values [] = Inr []"
| "series_values (IntC i # cs) =
     (case series_values cs of Inl e \<Rightarrow> Inl e | Inr vs \<Rightarrow> Inr (of_int i # vs))"
| "series_values (NumC x # cs) =
     (case series_values cs of Inl e \<Rightarrow> Inl e | Inr vs \<Rightarrow> Inr (x # vs))"
| "series_values (NA # cs) = series_values cs"
| "series_values (InfC s # cs) = Inl ValueError"
| "series_values (c # cs) = Inl TypeError"

definition qcut_exact :: "cell list \<Rightarrow> nat \<Rightarrow> error + (cell \<Rightarrow> int)" where
  "qcut_exact series bins =
     (case series_values series of
        Inl e \<Rightarrow> Inl e
      | Inr vals \<Rightarrow>
         (if vals = [] then Inl IndexError
          else Inr (\<lambda>v. bin_code (qcut_bins vals bins) (finite_value v))))"

subsection \<open>The feature engineer\<close>

text \<open>The fields of \<open>FeatureEngineer\<close>; \<open>FeatureEngineer\<close> itself is the state \<open>__init__\<close> builds.\<close>

record feature_engineer =
  target_encoders :: "(string \<times> target_encoder) list"
  ohe :: "one_hot_encoder option"
  fitted :: bool

definition FeatureEngineer :: feature_engineer where
  "FeatureEngineer = \<lparr>target_encoders = [], ohe = None, fitted = False\<rparr>"

text \<open>
  \<open>fit(df, y)\<close>: one target encoder per column of \<open>TARGET_ENC_COLS\<close>, then the one-hot
  encoder on \<open>OHE_COLS\<close> (which rejects a frame with no row). Nothing is computed or
  stored for the columns of \<open>WOE_COLS\<close>.
\<close>

fun fit_target_encoders ::
  "smoother \<Rightarrow> string list \<Rightarrow> frame \<Rightarrow> cell list \<Rightarrow> (string \<times> target_encoder) list
    \<Rightarrow> error + (string \<times> target_encoder) list" where
  "fit_target_encoders smooth [] df y encs = Inr encs"
| "fit_target_encoders smooth (col # cols) df y encs =
     (if col \<notin> set (columns df) then Inl (KeyError col)
      else case te_fit smooth (1 / 4) (column col df) y of
        Inl e \<Rightarrow> Inl e
      | Inr enc \<Rightarrow> fit_target_encoders smooth cols df y (dict_set col enc encs))"

definition fit :: "smoother \<Rightarrow> feature_engineer \<Rightarrow> frame \<Rightarrow> cell list \<Rightarrow> error + feature_engineer" where
  "fit smooth self df y =
     (case fit_target_encoders smooth TARGET_ENC_COLS df y (target_encoders self) of
        Inl e \<Rightarrow> Inl e
      | Inr encs \<Rightarrow>
         (case filter (\<lambda>c. c \<notin> set (columns df)) OHE_COLS of
            c # cs \<Rightarrow> Inl (KeyError c)
          | [] \<Rightarrow>
             (if rows df = [] then Inl ValueError
              else case ohe_fit_cols OHE_COLS df of
                Inl e \<Rightarrow> Inl e
              | Inr cats \<Rightarrow>
                  Inr \<lparr>target_encoders = encs, ohe = Some \<lparr>categories = cats\<rparr>,
                       fitted = True\<rparr>)))"

text \<open>
  Step 1 of \<open>transform\<close>, lines 94 to 96: for every fitted encoder, the encoded column
  \<open>col_te\<close> is set and the column \<open>col\<close> dropped.
\<close>

fun target_encode_step :: "(string \<times> target_encoder) list \<Rightarrow> frame \<Rightarrow> error + frame" where
  "target_encode_step [] df = Inr df"
| "target_encode_step ((col, enc) # encs) df =
     (if col \<notin> set (columns df) then Inl (KeyError col)
      else target_encode_step encs
             (drop_cols [col] (set_col (col @ ''_te'') (te_transform enc (column col df)) df)))"

text \<open>
  Step 2, lines 99 to 102: the indicator columns are computed from the frame, set one
  after the other under their feature names, and \<open>OHE_COLS\<close> are dropped. The encoder
  rejects a frame with no row (the input check of scikit-learn raises ValueError).
\<close>

definition one_hot_step :: "one_hot_encoder option \<Rightarrow> frame \<Rightarrow> error + frame" where
  "one_hot_step enc df =
     (case enc of
        None \<Rightarrow> Inl AttributeError
      | Some e \<Rightarrow>
         (case filter (\<lambda>c. c \<notin> set (columns df)) OHE_COLS of
            c # cs \<Rightarrow> Inl (KeyError c)
          | [] \<Rightarrow>
             (if rows df = [] then Inl ValueError
              else Inr (drop_cols OHE_COLS
                          (fold (\<lambda>p d. set_col (feature_name p) (indicator p (rows df)) d)
                             (ohe_pairs e) df)))))"

text \<open>
  Step 3, lines 105 to 107: \<open>_woe_bucket\<close> is called on the column of the frame being
  transformed, with no other argument.
\<close>

fun woe_step :: "environment \<Rightarrow> string list \<Rightarrow> frame \<Rightarrow> error + frame" where
  "woe_step env [] df = Inr df"
| "woe_step env (col # cols) df =
     (if col \<notin> set (columns df) then Inl (KeyError col)
      else case woe_bucket env (column col df) 10 of
        Inl e \<Rightarrow> Inl e
      | Inr codes \<Rightarrow> woe_step env cols (drop_cols [col] (set_col (col @ ''_woe'') codes df)))"

text \<open>
  Step 4, lines 110 and 111: \<open>loan_to_income\<close> from the frame under construction,
  \<open>dti_emp_inter\<close> from the columns of the input frame \<open>df\<close>.
\<close>

definition interaction_step :: "frame \<Rightarrow> frame \<Rightarrow> error + frame" where
  "interaction_step df out_df =
     (case filter (\<lambda>c. c \<notin> set (columns out_df)) [''loan_amnt'', ''annual_inc''] of
        c # cs \<Rightarrow> Inl (KeyError c)
      | [] \<Rightarrow>
         (case those_fl (column ''loan_amnt'' out_df) of
            Inl e \<Rightarrow> Inl e
          | Inr amnt \<Rightarrow>
             (case those_fl (column ''annual_inc'' out_df) of
                Inl e \<Rightarrow> Inl e
              | Inr inc \<Rightarrow>
                 (case filter (\<lambda>c. c \<notin> set (columns df)) [''dti'', ''emp_length''] of
                    c # cs \<Rightarrow> Inl (KeyError c)
                  | [] \<Rightarrow>
                     (case those_fl (column ''dti'' df) of
                        Inl e \<Rightarrow> Inl e
                      | Inr d \<Rightarrow>
                         (case those_fl (column ''emp_length'' df) of
                            Inl e \<Rightarrow> Inl e
                          | Inr emp \<Rightarrow>
                             Inr (set_col ''dti_emp_inter'' (map2 (\<lambda>a b. of_fl (fmul a b)) d emp)
                                   (set_col ''loan_to_income''
                                      (map2 (\<lambda>a b. of_fl (fdiv a (fadd b (Fin 1)))) amnt inc)
                                      out_df))))))))"

text \<open>
  Step 5, lines 114 and 115: the key \<open>issue_ym\<close> is set from the input frame's
  \<open>issue_d\<close>, the macro columns are joined on it (a left join: a key the table does not
  have gives NaN in every macro column; a column name on both sides raises), and the key
  is dropped.
\<close>

fun those_cells :: "cell option list \<Rightarrow> error + cell list" where
  "those_cells [] = Inr []"
| "those_cells (None # cs) = Inl ValueError"
| "those_cells (Some c # cs) =
     (case those_cells cs of Inl e \<Rightarrow> Inl e | Inr xs \<Rightarrow> Inr (c # xs))"

definition join_row :: "environment \<Rightarrow> row \<Rightarrow> row" where
  "join_row env r =
     (let m = (case r ''issue_ym'' of
                 YmC y mo \<Rightarrow> (case macro_row env (y, mo) of Some mr \<Rightarrow> mr | None \<Rightarrow> (\<lambda>c. NA))
               | _ \<Rightarrow> (\<lambda>c. NA))
      in (\<lambda>c. if c \<in> set (macro_columns env) then m c else r c))"

definition macro_join :: "environment \<Rightarrow> frame \<Rightarrow> frame \<Rightarrow> error + frame" where
  "macro_join env df out_df =
     (if ''issue_d'' \<notin> set (columns df) then Inl (KeyError ''issue_d'')
      else case those_cells (map (to_period env) (column ''issue_d'' df)) of
        Inl e \<Rightarrow> Inl e
      | Inr yms \<Rightarrow>
         (let keyed = set_col ''issue_ym'' yms out_df in
          if filter (\<lambda>c. c \<in> set (columns keyed)) (macro_columns env) \<noteq> [] then Inl ValueError
          else Inr (drop_cols [''issue_ym'']
                      \<lparr>columns = columns keyed @ macro_columns env,
                       rows = map (join_row env) (rows keyed)\<rparr>)))"

definition transform_frame :: "environment \<Rightarrow> feature_engineer \<Rightarrow> frame \<Rightarrow> error + frame" where
  "transform_frame env self df =
     (if \<not> fitted self then Inl RuntimeError
      else case target_encode_step (target_encoders self) df of
        Inl e \<Rightarrow> Inl e
      | Inr d1 \<Rightarrow>
         (case one_hot_step (ohe self) d1 of
            Inl e \<Rightarrow> Inl e
          | Inr d2 \<Rightarrow>
             (case woe_step env WOE_COLS d2 of
                Inl e \<Rightarrow> Inl e
              | Inr d3 \<Rightarrow>
                 (case interaction_step df d3 of
                    Inl e \<Rightarrow> Inl e
                  | Inr d4 \<Rightarrow> macro_join env df d4))))"

text \<open>
  \<open>transform\<close> on what it is handed. On a Python dict the first statements still run:
  \<open>df.copy()\<close> copies the dict and \<open>out_df[col]\<close> reads the value of the key, a KeyError
  if the dict does not have it. With a fitted target encoder, \<open>enc.transform\<close> is then
  handed that single value instead of a column and raises ValueError (line 95). With no
  target encoder, \<open>out_df[OHE_COLS]\<close> indexes the dict with a list and raises TypeError
  (line 99).
\<close>

fun transform :: "environment \<Rightarrow> feature_engineer \<Rightarrow> pyarg \<Rightarrow> error + frame" where
  "transform env self (Frame df) = transform_frame env self df"
| "transform env self (Dict d) =
     (if \<not> fitted self then Inl RuntimeError
      else case target_encoders self of
        [] \<Rightarrow> (case ohe self of None \<Rightarrow> Inl AttributeError | Some e \<Rightarrow> Inl TypeError)
      | (col, enc) # encs \<Rightarrow>
          (if col \<in> set (map fst d) then Inl ValueError else Inl (KeyError col)))"

definition fit_transform ::
  "smoother \<Rightarrow> environment \<Rightarrow> feature_engineer \<Rightarrow> frame \<Rightarrow> cell list \<Rightarrow> error + frame" where
  "fit_transform smooth env self df y =
     (case fit smooth self df y of Inl e \<Rightarrow> Inl e | Inr st \<Rightarrow> transform env st (Frame df))"

text \<open>
  The columns \<open>transform\<close> computes, by the encoder's vocabulary, and the input columns
  it leaves as they are.
\<close>

definition generated_columns :: "one_hot_encoder \<Rightarrow> string list" where
  "generated_columns enc =
     map (\<lambda>c. c @ ''_te'') TARGET_ENC_COLS @ get_feature_names_out enc
       @ map (\<lambda>c. c @ ''_woe'') WOE_COLS @ [''loan_to_income'', ''dti_emp_inter'']"

definition passed_through :: "string list \<Rightarrow> string list" where
  "passed_through cols = filter (\<lambda>c. c \<notin> set (TARGET_ENC_COLS @ OHE_COLS @ WOE_COLS)) cols"

text \<open>
  A list of column names without the two date columns, the loan's \<open>issue_d\<close> and the
  \<open>date\<close> of the macro table (\<open>parse_dates=["date"]\<close> in \<open>_load_macro\<close>).
\<close>

definition feature_layout :: "string list \<Rightarrow> string list" where
  "feature_layout cols = filter (\<lambda>c. c \<noteq> ''issue_d'' \<and> c \<noteq> ''date'') cols"

text \<open>
  \<open>pd.DataFrame([record])\<close>: the frame of one row a record gives.
\<close>

definition record_frame :: "(string \<times> cell) list \<Rightarrow> frame" where
  "record_frame d = \<lparr>columns = map fst d, rows = [row_of d]\<rparr>"

text \<open>
  Concrete inputs: an environment (a macro table with one month, the exact instance of
  \<open>qcut\<close>), a training frame of two loans (the label popped) with its labels, the state
  \<open>fit\<close> returns on it, and a second batch of two loans. The loans differ in their
  identifier and their dti only.
\<close>

definition macro0 :: environment where
  "macro0 =
     \<lparr>macro_columns = [''date'', ''fed_funds'', ''unemployment''],
      macro_row = (\<lambda>k. if k = (2020, 1)
                        then Some (row_of [(''date'', StrC ''2020-01-01''),
                                           (''fed_funds'', NumC (3 / 2)),
                                           (''unemployment'', NumC 4)])
                        else None),
      to_period = (\<lambda>c. if c = StrC ''2020-01-15'' then Some (YmC 2020 1)
                        else if c = NA then Some NA else None),
      qcut = qcut_exact\<rparr>"

definition feature_columns :: "string list" where
  "feature_columns = filter (\<lambda>c. c \<noteq> ''defaulted'') loan_columns"

definition train2 :: frame where
  "train2 = \<lparr>columns = feature_columns, rows = [loan 1 (NumC 1), loan 2 (NumC 2)]\<rparr>"

definition labels2 :: "cell list" where
  "labels2 = [IntC 0, IntC 1]"

definition enc0 :: one_hot_encoder where
  "enc0 = \<lparr>categories = [[''36 months''], [''RENT''], [''car'']]\<rparr>"

definition fitted0 :: feature_engineer where
  "fitted0 =
     \<lparr>target_encoders = [(''emp_length'', \<lparr>te_mapping = [(NumC 3, 1 / 2)], te_prior = 1 / 2\<rparr>)],
      ohe = Some enc0, fitted = True\<rparr>"

definition batch_b :: frame where
  "batch_b = \<lparr>columns = feature_columns, rows = [loan 3 (NumC 2), loan 4 (NumC 3)]\<rparr>"

section \<open>train.py: search and final refit\<close>

text \<open>
  The six values a trial suggests (\<open>trial.suggest_float\<close>, \<open>trial.suggest_int\<close>). Which
  values the sampler of Optuna proposes is not part of the repository: the sampler is a
  function of the trials run so far.
\<close>

datatype pval = PNum rat | PInt int | PStr string

type_synonym params = "(string \<times> pval) list"

record hyper =
  learning_rate :: rat
  num_leaves :: int
  feature_fraction :: rat
  bagging_fraction :: rat
  bagging_freq :: int
  min_data_in_leaf :: int

definition suggested :: "hyper \<Rightarrow> params" where
  "suggested h =
     [(''learning_rate'', PNum (learning_rate h)), (''num_leaves'', PInt (num_leaves h)),
      (''feature_fraction'', PNum (feature_fraction h)),
      (''bagging_fraction'', PNum (bagging_fraction h)),
      (''bagging_freq'', PInt (bagging_freq h)),
      (''min_data_in_leaf'', PInt (min_data_in_leaf h))]"

text \<open>
  A trial as the study keeps it: the suggested parameters, the user attributes (set only
  by \<open>trial.set_user_attr\<close>) and the objective's value.
\<close>

record trial =
  trial_params :: params
  user_attrs :: "(string \<times> nat) list"
  trial_value :: rat

text \<open>
  What one early-stopped training run gives the objective: the round early stopping
  settled on (\<open>model.best_iteration\<close>) and the validation AUC of the predictions at that
  round. \<open>lgb.train\<close> is LightGBM's; it is the parameter \<open>lgb_train_es\<close>, called with
  the trial's parameter dict, \<open>num_boost_round=2000\<close> and \<open>early_stopping_rounds=100\<close>.
\<close>

record early_stopped =
  best_iteration :: nat
  val_auc :: rat

type_synonym trainer = "params \<Rightarrow> nat \<Rightarrow> nat \<Rightarrow> error + early_stopped"

definition objective_params :: "hyper \<Rightarrow> params" where
  "objective_params h =
     [(''objective'', PStr ''binary''), (''boosting_type'', PStr ''gbdt''),
      (''metric'', PStr ''auc''), (''verbosity'', PInt (- 1))] @ suggested h"

text \<open>
  \<open>objective(trial)\<close>: the trial after the call and the returned AUC. The function
  suggests the six values, trains, predicts and returns the AUC; it never calls
  \<open>trial.set_user_attr\<close>, so the user attributes stay as they were.
\<close>

definition objective :: "trainer \<Rightarrow> hyper \<Rightarrow> trial \<Rightarrow> error + (trial \<times> rat)" where
  "objective lgb_train_es h t =
     (case lgb_train_es (objective_params h) 2000 100 of
        Inl e \<Rightarrow> Inl e
      | Inr m \<Rightarrow> Inr (t\<lparr>trial_params := suggested h\<rparr>, val_auc m))"

text \<open>
  \<open>study.optimize(objective, n_trials=...)\<close>: every trial starts with no user attribute;
  an exception of the objective ends the study (no exception type is caught).
\<close>

fun optimize :: "(trial list \<Rightarrow> hyper) \<Rightarrow> trainer \<Rightarrow> nat \<Rightarrow> trial list \<Rightarrow> error + trial list" where
  "optimize sampler lgb_train_es 0 hist = Inr hist"
| "optimize sampler lgb_train_es (Suc n) hist =
     (case objective lgb_train_es (sampler hist)
             \<lparr>trial_params = [], user_attrs = [], trial_value = 0\<rparr> of
        Inl e \<Rightarrow> Inl e
      | Inr (t, v) \<Rightarrow> optimize sampler lgb_train_es n (hist @ [t\<lparr>trial_value := v\<rparr>]))"

text \<open>\<open>study.best_trial\<close> with \<open>direction="maximize"\<close>: the first trial of the highest value.\<close>

fun best_of :: "trial \<Rightarrow> trial list \<Rightarrow> trial" where
  "best_of b [] = b"
| "best_of b (t # ts) = best_of (if trial_value b < trial_value t then t else b) ts"

definition best_trial :: "trial list \<Rightarrow> error + trial" where
  "best_trial ts = (case ts of [] \<Rightarrow> Inl ValueError | t # ts' \<Rightarrow> Inr (best_of t ts'))"

text \<open>
  The final call \<open>lgb.train(best_params, final_train, num_boost_round=...)\<close> of lines 99 to
  101, given by its arguments: the parameter dict, the data set and the number of rounds
  \<open>study.best_trial.user_attrs.get("n_boost_round", 500)\<close>.
\<close>

record 'd train_call =
  call_params :: params
  call_data :: 'd
  call_rounds :: nat

definition dict_get :: "(string \<times> 'v) list \<Rightarrow> string \<Rightarrow> 'v \<Rightarrow> 'v" where
  "dict_get d k dflt = (case map_of d k of Some v \<Rightarrow> v | None \<Rightarrow> dflt)"

definition final_refit :: "trial \<Rightarrow> 'd \<Rightarrow> 'd train_call" where
  "final_refit best full =
     \<lparr>call_params = dict_update (trial_params best)
        [(''objective'', PStr ''binary''), (''metric'', PStr ''auc''), (''verbosity'', PInt (- 1))],
      call_data = full,
      call_rounds = dict_get (user_attrs best) ''n_boost_round'' 500\<rparr>"

definition search_and_refit ::
  "(trial list \<Rightarrow> hyper) \<Rightarrow> trainer \<Rightarrow> nat \<Rightarrow> 'd \<Rightarrow> error + 'd train_call" where
  "search_and_refit sampler lgb_train_es n_trials full =
     (case optimize sampler lgb_train_es n_trials [] of
        Inl e \<Rightarrow> Inl e
      | Inr ts \<Rightarrow> (case best_trial ts of Inl e \<Rightarrow> Inl e | Inr b \<Rightarrow> Inr (final_refit b full)))"




text \<open>Line 105: \<open>preds_full > 0.5\<close>, the labels the training-time F1 is computed from.\<close>

definition gt_half :: "rat list \<Rightarrow> bool list" where
  "gt_half preds = map (\<lambda>p. 1 / 2 < p) preds"

section \<open>train.py: evaluation\<close>

text \<open>
  \<open>roc_auc_score(y_true, y_score)\<close> of scikit-learn on binary labels, by its documented
  algorithm: the thresholds are the distinct scores in decreasing order; at each
  threshold the false and true positives are the negatives and positives with a score at
  least the threshold; the curve starts at (0, 0), the rates are the counts divided by
  the last counts, and the area is the trapezoid rule of \<open>np.trapz\<close>. The dropping of
  collinear intermediate points, which leaves the area as it is, is not modelled. With
  a single class in the labels the function raises ValueError.
\<close>

definition thresholds :: "rat list \<Rightarrow> rat list" where
  "thresholds s = rev (sort (remdups s))"

definition positives :: "bool list \<Rightarrow> rat list \<Rightarrow> rat list" where
  "positives y s = map fst (filter snd (zip s y))"

definition negatives :: "bool list \<Rightarrow> rat list \<Rightarrow> rat list" where
  "negatives y s = map fst (filter (\<lambda>p. \<not> snd p) (zip s y))"

definition count_ge :: "rat list \<Rightarrow> rat \<Rightarrow> rat" where
  "count_ge xs t = of_nat (length (filter (\<lambda>x. t \<le> x) xs))"

definition roc_curve :: "bool list \<Rightarrow> rat list \<Rightarrow> rat list \<times> rat list" where
  "roc_curve y s =
     (let ts = thresholds s;
          fps = map (count_ge (negatives y s)) ts;
          tps = map (count_ge (positives y s)) ts
      in (map (\<lambda>f. f / last fps) (0 # fps), map (\<lambda>t. t / last tps) (0 # tps)))"

fun auc :: "rat list \<Rightarrow> rat list \<Rightarrow> rat" where
  "auc (x0 # x1 # xs) (y0 # y1 # ys) = (x1 - x0) * (y1 + y0) / 2 + auc (x1 # xs) (y1 # ys)"
| "auc xs ys = 0"

definition roc_auc_score :: "bool list \<Rightarrow> rat list \<Rightarrow> error + rat" where
  "roc_auc_score y s =
     (if length y \<noteq> length s then Inl ValueError
      else if True \<notin> set y \<or> False \<notin> set y then Inl ValueError
      else Inr (case roc_curve y s of (fpr, tpr) \<Rightarrow> auc fpr tpr))"

text \<open>
  \<open>f1_score(y_true, y_pred)\<close> of scikit-learn for the positive label 1, from the counts
  of true positives, false positives and false negatives; 0 where the quotient is
  undefined.
\<close>

definition count_where :: "(bool \<Rightarrow> bool \<Rightarrow> bool) \<Rightarrow> bool list \<Rightarrow> bool list \<Rightarrow> rat" where
  "count_where P y pred = of_nat (length (filter (\<lambda>(t, p). P t p) (zip y pred)))"

definition f1_score :: "bool list \<Rightarrow> bool list \<Rightarrow> error + rat" where
  "f1_score y pred =
     (if length y \<noteq> length pred then Inl ValueError
      else let tp = count_where (\<lambda>t p. t \<and> p) y pred;
               fp = count_where (\<lambda>t p. \<not> t \<and> p) y pred;
               fn = count_where (\<lambda>t p. t \<and> \<not> p) y pred
           in Inr (if 2 * tp + fp + fn = 0 then 0 else 2 * tp / (2 * tp + fp + fn)))"

text \<open>The label column as truth values: 1 is a default, 0 is none, anything else is rejected.\<close>

fun label_bools :: "cell list \<Rightarrow> error + bool list" where
  "label_bools [] = Inr []"
| "label_bools (c # cs) =
     (if c = IntC 0 \<or> c = NumC 0 \<or> c = IntC 1 \<or> c = NumC 1
      then (case label_bools cs of
              Inl e \<Rightarrow> Inl e
            | Inr bs \<Rightarrow> Inr ((c = IntC 1 \<or> c = NumC 1) # bs))
      else Inl ValueError)"

text \<open>
  Lines 104 and 105: \<open>auc_full = roc_auc_score(y_full, preds_full)\<close> and
  \<open>f1_full = f1_score(y_full, preds_full > 0.5)\<close>.
\<close>

definition evaluate :: "cell list \<Rightarrow> rat list \<Rightarrow> error + rat \<times> rat" where
  "evaluate y_full preds_full =
     (case label_bools y_full of
        Inl e \<Rightarrow> Inl e
      | Inr y \<Rightarrow>
         (case roc_auc_score y preds_full of
            Inl e \<Rightarrow> Inl e
          | Inr auc_full \<Rightarrow>
             (case f1_score y (gt_half preds_full) of
                Inl e \<Rightarrow> Inl e
              | Inr f1_full \<Rightarrow> Inr (auc_full, f1_full))))"

text \<open>
  train_model.py, lines 10 to 12: both metrics are computed from \<open>model.predict(X_test)\<close>,
  the predicted classes (class 1 where the forest gives it a probability above one half),
  the AUC from the classes as scores 1 and 0.
\<close>

definition class_metrics :: "bool list \<Rightarrow> bool list \<Rightarrow> error + rat \<times> rat" where
  "class_metrics y_test preds =
     (case f1_score y_test preds of
        Inl e \<Rightarrow> Inl e
      | Inr f1 \<Rightarrow>
         (case roc_auc_score y_test (map (\<lambda>c. if c then 1 else 0) preds) of
            Inl e \<Rightarrow> Inl e
          | Inr roc \<Rightarrow> Inr (f1, roc)))"

text \<open>
  The reference formulas the metrics are compared with. The area under the ROC
  curve as the share of (positive, negative) pairs that the scores rank correctly, a tie
  counting one half; F1 as the harmonic mean of precision and recall.
\<close>

definition kernel :: "rat \<Rightarrow> rat \<Rightarrow> rat" where
  "kernel p n = (if n < p then 1 else if p = n then 1 / 2 else 0)"

definition reference_auc :: "bool list \<Rightarrow> rat list \<Rightarrow> rat" where
  "reference_auc y s =
     (\<Sum>n \<leftarrow> negatives y s. \<Sum>p \<leftarrow> positives y s. kernel p n)
       / (of_nat (length (positives y s)) * of_nat (length (negatives y s)))"

definition reference_f1 :: "bool list \<Rightarrow> bool list \<Rightarrow> rat" where
  "reference_f1 y pred =
     (let tp = count_where (\<lambda>t p. t \<and> p) y pred;
          predicted = count_where (\<lambda>t p. p) y pred;
          actual = count_where (\<lambda>t p. t) y pred;
          precision = (if predicted = 0 then 0 else tp / predicted);
          recall = (if actual = 0 then 0 else tp / actual)
      in if precision + recall = 0 then 0 else 2 * precision * recall / (precision + recall))"

text \<open>Counts used in the proofs: scores above a value, scores equal to it, pairs won.\<close>

definition count_gt :: "rat list \<Rightarrow> rat \<Rightarrow> rat" where
  "count_gt xs t = of_nat (length (filter (\<lambda>x. t < x) xs))"

definition count_eq :: "rat list \<Rightarrow> rat \<Rightarrow> rat" where
  "count_eq xs t = of_nat (length (filter (\<lambda>x. x = t) xs))"

definition won :: "rat list \<Rightarrow> rat list \<Rightarrow> rat set \<Rightarrow> rat" where
  "won ps ns A = (\<Sum>n \<leftarrow> ns. if n \<in> A then 2 * count_gt ps n + count_eq ps n else 0)"

text \<open>The example of the specification: four labels and four probabilities.\<close>

definition example_labels :: "cell list" where
  "example_labels = [IntC 0, IntC 1, IntC 1, IntC 0]"

definition example_probs :: "rat list" where
  "example_probs = [1 / 10, 9 / 10, 2 / 5, 1 / 5]"

section \<open>predict_api.py\<close>

text \<open>The request body \<open>LoanRow\<close> and the response \<open>Prediction\<close>.\<close>

record loan_row =
  loan_id :: int
  loan_amnt :: rat
  loan_term :: string
  emp_length :: rat
  home_ownership :: string
  annual_inc :: rat
  purpose :: string
  dti :: rat
  delinq_2yrs :: int
  open_acc :: int
  pub_rec :: int
  revol_util :: rat
  total_acc :: int
  issue_d :: string

record prediction =
  prob :: rat
  defaulted :: bool

definition model_dump :: "loan_row \<Rightarrow> (string \<times> cell) list" where
  "model_dump r =
     [(''loan_id'', IntC (loan_id r)), (''loan_amnt'', NumC (loan_amnt r)),
      (''term'', StrC (loan_term r)), (''emp_length'', NumC (emp_length r)),
      (''home_ownership'', StrC (home_ownership r)), (''annual_inc'', NumC (annual_inc r)),
      (''purpose'', StrC (purpose r)), (''dti'', NumC (dti r)),
      (''delinq_2yrs'', IntC (delinq_2yrs r)), (''open_acc'', IntC (open_acc r)),
      (''pub_rec'', IntC (pub_rec r)), (''revol_util'', NumC (revol_util r)),
      (''total_acc'', IntC (total_acc r)), (''issue_d'', StrC (issue_d r))]"

definition payload :: "loan_row \<Rightarrow> (string \<times> cell) list" where
  "payload r = dict_update (model_dump r) [(''defaulted'', IntC 0)]"

text \<open>Python's \<open>round(prob, 4)\<close>, half to even, on the rational value.\<close>

definition round4 :: "rat \<Rightarrow> rat" where
  "round4 p =
     (let s = p * 10000; f = \<lfloor>s\<rfloor> in
      if s - of_int f < 1 / 2 then of_int f / 10000
      else if 1 / 2 < s - of_int f then of_int (f + 1) / 10000
      else of_int (if even f then f else f + 1) / 10000)"

text \<open>Line 110: \<open>{"prob": round(prob, 4), "defaulted": prob >= 0.5}\<close>.\<close>

definition respond :: "rat \<Rightarrow> prediction" where
  "respond p = \<lparr>prob = round4 p, defaulted = (1 / 2 \<le> p)\<rparr>"

text \<open>
  \<open>predict(row)\<close>. The feature engineer and the model are the two objects of the loaded
  bundle, called as \<open>feature_engineer.transform(...)\<close> and \<open>model.predict(df)[0]\<close>; any
  exception of the two calls becomes the HTTP error 422.
\<close>

datatype http_error = HTTP422 error

definition predict ::
  "(pyarg \<Rightarrow> error + 'x) \<Rightarrow> ('x \<Rightarrow> error + rat list) \<Rightarrow> loan_row \<Rightarrow> http_error + prediction" where
  "predict fe_transform model_predict row =
     (case fe_transform (Dict (payload row)) of
        Inl e \<Rightarrow> Inl (HTTP422 e)
      | Inr df \<Rightarrow>
         (case model_predict df of
            Inl e \<Rightarrow> Inl (HTTP422 e)
          | Inr [] \<Rightarrow> Inl (HTTP422 IndexError)
          | Inr (p # ps) \<Rightarrow> Inr (respond p)))"

definition request0 :: loan_row where
  "request0 = \<lparr>loan_id = 7, loan_amnt = 1000, loan_term = ''36 months'', emp_length = 3,
     home_ownership = ''RENT'', annual_inc = 50000, purpose = ''car'', dti = 10,
     delinq_2yrs = 0, open_acc = 5, pub_rec = 0, revol_util = 30, total_acc = 9,
     issue_d = ''2020-01-15''\<rparr>"

section \<open>Properties of data_loader.py\<close>

lemma astype_columns: "astype cast ds df = Inr df' \<Longrightarrow> columns df' = columns df"
  by (auto simp: astype_def split: list.splits option.splits)

lemma drop_duplicates_columns: "drop_duplicates k df = Inr df' \<Longrightarrow> columns df' = columns df"
  by (auto simp: drop_duplicates_def split: if_splits)

lemma clean_columns: "clean cast df = Inr out \<Longrightarrow> columns out = columns df"
proof -
  assume a: "clean cast df = Inr out"
  then obtain df1 df2 where 1: "astype cast DTYPES df = Inr df1"
    and 2: "drop_duplicates ''loan_id'' df1 = Inr df2" and 3: "out = dropna df2"
    by (auto simp: clean_def split: list.splits sum.splits)
  show ?thesis
    using astype_columns [OF 1] drop_duplicates_columns [OF 2] 3 by (simp add: dropna_def)
qed

lemma clean_required_present:
  "clean cast df = Inr out \<Longrightarrow> set REQUIRED_COLUMNS \<subseteq> set (columns df)"
proof -
  assume a: "clean cast df = Inr out"
  then have "filter (\<lambda>c. c \<notin> set (columns df)) REQUIRED_COLUMNS = []"
    by (auto simp: clean_def split: list.splits)
  then show ?thesis
    by (auto simp: filter_empty_conv)
qed

lemma clean_rows_complete:
  "clean cast df = Inr out \<Longrightarrow> r \<in> set (rows out) \<Longrightarrow> complete_row (columns out) r"
  by (auto simp: clean_def dropna_def split: list.splits sum.splits)

lemma loan_at [simp]:
  "loan i d ''loan_id'' = IntC i" "loan i d ''dti'' = d"
  by (simp_all add: loan_def row_of_def)

lemma astype_row_same:
  "list_all (\<lambda>(c, dt). cast dt (r c) = Some (r c)) ds \<Longrightarrow> astype_row cast ds r = Some r"
  by (induction ds arbitrary: r) (auto)

lemma astype_rows_same:
  "list_all (\<lambda>r. astype_row cast ds r = Some r) rs \<Longrightarrow> astype_rows cast ds rs = Some rs"
  by (induction rs) auto

lemma astype_same:
  assumes "set (map fst ds) \<subseteq> set (columns df)"
    and "list_all (\<lambda>r. astype_row cast ds r = Some r) (rows df)"
  shows "astype cast ds df = Inr df"
proof -
  have "filter (\<lambda>c. c \<notin> set (columns df)) (map fst ds) = []"
    using assms(1) by (auto simp: filter_empty_conv)
  then show ?thesis
    using astype_rows_same [OF assms(2)] by (simp add: astype_def)
qed

lemma loan_typed:
  "d = NA \<or> d \<in> range NumC \<Longrightarrow> astype_row cast_typed DTYPES (loan i d) = Some (loan i d)"
  by (rule astype_row_same) (auto simp: DTYPES_def loan_def row_of_def)

lemma required_in_loan_columns: "filter (\<lambda>c. c \<notin> set loan_columns) REQUIRED_COLUMNS = []"
  by (simp add: loan_columns_def)

lemma loan_complete: "complete_row loan_columns (loan i d) = (d \<noteq> NA)"
  by (simp add: complete_row_def loan_columns_def REQUIRED_COLUMNS_def DTYPES_def loan_def row_of_def)

lemma clean_loans:
  assumes "list_all (\<lambda>r. astype_row cast_typed DTYPES r = Some r) rs"
  shows "clean cast_typed \<lparr>columns = loan_columns, rows = rs\<rparr> =
     Inr \<lparr>columns = loan_columns,
          rows = filter (complete_row loan_columns) (drop_dups ''loan_id'' [] rs)\<rparr>"
proof -
  have 1: "astype cast_typed DTYPES \<lparr>columns = loan_columns, rows = rs\<rparr>
      = Inr \<lparr>columns = loan_columns, rows = rs\<rparr>"
    by (rule astype_same) (use assms in \<open>auto simp: loan_columns_def REQUIRED_COLUMNS_def\<close>)
  have 2: "''loan_id'' \<in> set loan_columns"
    by (simp add: loan_columns_def REQUIRED_COLUMNS_def DTYPES_def)
  show ?thesis
    by (simp add: clean_def required_in_loan_columns 1 drop_duplicates_def 2 dropna_def)
qed

lemma clean_batch3:
  "clean cast_typed batch3 = Inr \<lparr>columns = loan_columns, rows = [loan 1 (NumC 10)]\<rparr>"
  unfolding batch3_def
  by (subst clean_loans) (simp_all add: loan_typed loan_complete)

text \<open>
  After \<open>_clean\<close> has returned a batch, every required column (the label
  \<open>defaulted\<close> among them) is a column of the batch, and no retained row holds a
  missing value in any column: a row with a missing value after the cast is not
  in the returned batch.
\<close>

theorem clean_no_nulls:
  assumes "clean cast df = Inr out"
  shows "set REQUIRED_COLUMNS \<subseteq> set (columns out)
    \<and> ''defaulted'' \<in> set (columns out)
    \<and> (\<forall>r \<in> set (rows out). \<forall>c \<in> set (columns out). r c \<noteq> NA)"
proof -
  have req: "set REQUIRED_COLUMNS \<subseteq> set (columns out)"
    using clean_required_present [OF assms] clean_columns [OF assms] by simp
  have "''defaulted'' \<in> set REQUIRED_COLUMNS"
    by (simp add: REQUIRED_COLUMNS_def DTYPES_def)
  then have lab: "''defaulted'' \<in> set (columns out)"
    using req by blast
  have "\<forall>r \<in> set (rows out). \<forall>c \<in> set (columns out). r c \<noteq> NA"
    using clean_rows_complete [OF assms] by (auto simp: complete_row_def list_all_iff)
  with req lab show ?thesis by blast
qed

text \<open>
  On the three records of \<open>batch3\<close> only the first is returned; the second repeats its
  identifier and the third has no dti.
\<close>

theorem clean_no_nulls_witness:
  "clean cast_typed batch3 = Inr \<lparr>columns = loan_columns, rows = [loan 1 (NumC 10)]\<rparr>
   \<and> set REQUIRED_COLUMNS \<subseteq> set loan_columns
   \<and> ''defaulted'' \<in> set loan_columns
   \<and> list_all (\<lambda>c. loan 1 (NumC 10) c \<noteq> NA) loan_columns"
  using clean_no_nulls [OF clean_batch3] clean_batch3 by (simp add: list_all_iff)

section \<open>Properties of data_cleaning.py\<close>

text \<open>
  \<open>load_and_clean_data\<close> drops every row with a missing value as well. Its label is
  mapped after the rows are dropped: a returned row has no missing value outside the
  label, and its label is 1 or 0 where the file had \<open>Y\<close> or \<open>N\<close>, NaN for any other text.
\<close>

lemma dropna_complete: "r \<in> set (rows (dropna df)) \<Longrightarrow> complete_row (columns (dropna df)) r"
  by (simp add: dropna_def)

lemma load_and_clean_data_complete:
  assumes "load_and_clean_data df = Inr out" and "r \<in> set (rows out)" and "c \<in> set (columns out)"
    and "c \<noteq> ''Loan_Status''"
  shows "r c \<noteq> NA"
  using assms
  by (auto simp: load_and_clean_data_def Let_def dropna_def complete_row_def list_all_iff
      split: if_splits)

lemma load_and_clean_data_label:
  assumes "load_and_clean_data df = Inr out"
  shows "column ''Loan_Status'' out = map loan_status (column ''Loan_Status'' (dropna df))"
  using assms by (auto simp: load_and_clean_data_def Let_def column_def split: if_splits)

text \<open>
  C5. The cleaning of data_cleaning.py returns a retained row with a null in the label
  field. On a file of two complete records whose second label is \<open>Yes\<close>, both rows are
  kept (\<open>dropna\<close> runs before the label is mapped) and the label of the second comes
  out as NaN. The cleaning of data_loader.py does what the claim says: on \<open>batch3\<close> it
  returns the one record that is complete after the cast.
\<close>

theorem load_and_clean_data_null_label:
  "map_sum id columns (load_and_clean_data status_csv) = Inr [''Loan_ID'', ''Loan_Status'']
   \<and> column ''Loan_Status'' status_csv = [StrC ''Y'', StrC ''Yes'']
   \<and> map_sum id (column ''Loan_ID'') (load_and_clean_data status_csv)
       = Inr [StrC ''LP001'', StrC ''LP002'']
   \<and> map_sum id (column ''Loan_Status'') (load_and_clean_data status_csv) = Inr [IntC 1, NA]
   \<and> clean cast_typed batch3 = Inr \<lparr>columns = loan_columns, rows = [loan 1 (NumC 10)]\<rparr>"
proof -
  have 1: "map_sum id columns (load_and_clean_data status_csv) = Inr [''Loan_ID'', ''Loan_Status'']"
    by code_simp
  have 2: "column ''Loan_Status'' status_csv = [StrC ''Y'', StrC ''Yes'']"
    by code_simp
  have 3: "map_sum id (column ''Loan_ID'') (load_and_clean_data status_csv)
       = Inr [StrC ''LP001'', StrC ''LP002'']"
    by code_simp
  have 4: "map_sum id (column ''Loan_Status'') (load_and_clean_data status_csv) = Inr [IntC 1, NA]"
    by code_simp
  from 1 2 3 4 clean_batch3 show ?thesis by simp
qed

section \<open>Identifiers across chunks\<close>

text \<open>
  Within one cleaned frame the identifiers are distinct, the first row of each identifier
  being the one \<open>drop_duplicates\<close> keeps.
\<close>

lemma drop_dups_subset: "set (drop_dups k seen rs) \<subseteq> set rs"
  by (induction rs arbitrary: seen) auto

lemma drop_dups_keys_fresh: "r \<in> set (drop_dups k seen rs) \<Longrightarrow> r k \<notin> set seen"
proof (induction rs arbitrary: seen)
  case Nil
  then show ?case by simp
next
  case (Cons a rs)
  show ?case
  proof (cases "a k \<in> set seen")
    case True
    with Cons show ?thesis by simp
  next
    case False
    with Cons.prems have "r = a \<or> r \<in> set (drop_dups k (a k # seen) rs)"
      by simp
    then show ?thesis
      using False Cons.IH [of "a k # seen"] by auto
  qed
qed

lemma drop_dups_distinct: "distinct (map (\<lambda>r. r k) (drop_dups k seen rs))"
  by (induction rs arbitrary: seen) (auto dest: drop_dups_keys_fresh)

lemma drop_dups_same:
  "distinct (map (\<lambda>r. r k) rs) \<Longrightarrow> set (map (\<lambda>r. r k) rs) \<inter> set seen = {}
    \<Longrightarrow> drop_dups k seen rs = rs"
  by (induction rs arbitrary: seen) auto

lemma clean_ids_distinct:
  assumes "clean cast df = Inr out"
  shows "distinct (column ''loan_id'' out)"
proof -
  from assms obtain df1 df2 where 2: "drop_duplicates ''loan_id'' df1 = Inr df2"
    and 3: "out = dropna df2"
    by (auto simp: clean_def split: list.splits sum.splits)
  from 2 have "rows df2 = drop_dups ''loan_id'' [] (rows df1)"
    by (auto simp: drop_duplicates_def split: if_splits)
  then have "distinct (map (\<lambda>r. r ''loan_id'') (rows df2))"
    by (simp add: drop_dups_distinct)
  then show ?thesis
    using 3 by (simp add: column_def dropna_def distinct_map_filter)
qed

text \<open>
  A row \<open>drop_duplicates\<close> keeps is the first row of its key, and every key that is
  not yet seen keeps a row.
\<close>

lemma drop_dups_first:
  "r \<in> set (drop_dups k seen rs) \<Longrightarrow>
     \<exists>pre post. rs = pre @ r # post \<and> r k \<notin> (\<lambda>x. x k) ` set pre"
proof (induction rs arbitrary: seen)
  case Nil
  then show ?case by simp
next
  case (Cons a rs)
  show ?case
  proof (cases "a k \<in> set seen")
    case True
    with Cons.prems have m: "r \<in> set (drop_dups k seen rs)"
      by simp
    from Cons.IH [OF m] obtain pre post where
      p: "rs = pre @ r # post" "r k \<notin> (\<lambda>x. x k) ` set pre"
      by blast
    have "r k \<noteq> a k"
      using drop_dups_keys_fresh [OF m] True by auto
    then have "a # rs = (a # pre) @ r # post \<and> r k \<notin> (\<lambda>x. x k) ` set (a # pre)"
      using p by auto
    then show ?thesis by blast
  next
    case False
    with Cons.prems consider "r = a" | "r \<in> set (drop_dups k (a k # seen) rs)"
      by auto
    then show ?thesis
    proof cases
      case 1
      then have "a # rs = [] @ r # rs \<and> r k \<notin> (\<lambda>x. x k) ` set []"
        by simp
      then show ?thesis by blast
    next
      case 2
      from Cons.IH [OF 2] obtain pre post where
        p: "rs = pre @ r # post" "r k \<notin> (\<lambda>x. x k) ` set pre"
        by blast
      have "r k \<noteq> a k"
        using drop_dups_keys_fresh [OF 2] by auto
      then have "a # rs = (a # pre) @ r # post \<and> r k \<notin> (\<lambda>x. x k) ` set (a # pre)"
        using p by auto
      then show ?thesis by blast
    qed
  qed
qed

lemma drop_dups_keys:
  "set (map (\<lambda>r. r k) (drop_dups k seen rs)) = set (map (\<lambda>r. r k) rs) - set seen"
  by (induction rs arbitrary: seen) auto

lemma chunked_two:
  "length xs = n \<Longrightarrow> 0 < n \<Longrightarrow> chunked n (xs @ [x]) = [xs, [x]]"
  by (simp add: chunked.simps [of n "xs @ [x]"] chunked.simps [of n "[x]"] chunked.simps [of n "[]"])

lemma first_chunk_ids: "map (\<lambda>r. r ''loan_id'') first_chunk = map (\<lambda>i. IntC (int i)) [0..<50000]"
  by (simp add: first_chunk_def)

lemma clean_first_chunk:
  "clean cast_typed \<lparr>columns = loan_columns, rows = first_chunk\<rparr>
    = Inr \<lparr>columns = loan_columns, rows = first_chunk\<rparr>"
proof -
  have t: "list_all (\<lambda>r. astype_row cast_typed DTYPES r = Some r) first_chunk"
    by (simp add: first_chunk_def list_all_iff loan_typed)
  have d: "distinct (map (\<lambda>r. r ''loan_id'') first_chunk)"
    unfolding first_chunk_ids by (simp add: distinct_map inj_on_def)
  have c: "filter (complete_row loan_columns) first_chunk = first_chunk"
    by (simp add: first_chunk_def loan_complete filter_map comp_def)
  show ?thesis
    by (simp add: clean_loans [OF t] drop_dups_same [OF d] c)
qed

lemma clean_last_chunk:
  "clean cast_typed \<lparr>columns = loan_columns, rows = [loan 0 (NumC 10)]\<rparr>
    = Inr \<lparr>columns = loan_columns, rows = [loan 0 (NumC 10)]\<rparr>"
  by (subst clean_loans) (simp_all add: loan_typed loan_complete)

lemma restrict_loan: "restrict_row loan_columns (loan i d) = loan i d"
  by (rule ext) (simp add: restrict_row_def loan_columns_def REQUIRED_COLUMNS_def DTYPES_def loan_def row_of_def)

lemma loan_columns_distinct: "unique (loan_columns @ loan_columns) = loan_columns"
  by (simp add: unique_def loan_columns_def REQUIRED_COLUMNS_def DTYPES_def)

text \<open>
  C6. The training frame of train.py is the concatenation of chunks of 50000 rows, each
  cleaned on its own. On a CSV file of 50001 well-typed, complete records whose last record
  repeats the identifier of the first, both records are in different chunks, each chunk
  is returned unchanged by \<open>_clean\<close>, and the training frame is the whole file: the
  identifier 0 stands at rows 0 and 50000, so the identifiers handed to feature
  engineering are not distinct.
\<close>

theorem df_full_repeats_identifier:
  "df_full cast_typed (CsvReader csv_repeated_id) = Inr csv_repeated_id
   \<and> column ''loan_id'' csv_repeated_id ! 0 = IntC 0
   \<and> column ''loan_id'' csv_repeated_id ! 50000 = IntC 0
   \<and> \<not> distinct (column ''loan_id'' csv_repeated_id)"
proof -
  have len: "length first_chunk = 50000"
    by (simp add: first_chunk_def)
  have rows: "rows csv_repeated_id = first_chunk @ [loan 0 (NumC 10)]"
    by (simp add: csv_repeated_id_def)
  have ne: "first_chunk \<noteq> []"
    using len by auto
  have chunks: "csv_chunks 50000 csv_repeated_id =
      [\<lparr>columns = loan_columns, rows = first_chunk\<rparr>,
       \<lparr>columns = loan_columns, rows = [loan 0 (NumC 10)]\<rparr>]"
    using chunked_two [OF len, of "loan 0 (NumC 10)"]
    by (simp add: csv_chunks_def rows csv_repeated_id_def)
  have r: "map (restrict_row loan_columns) first_chunk = first_chunk"
    by (simp add: first_chunk_def restrict_loan)
  have full: "df_full cast_typed (CsvReader csv_repeated_id) = Inr csv_repeated_id"
    by (simp add: df_full_def iter_chunks_def chunks clean_first_chunk clean_last_chunk
        pd_concat_def loan_columns_distinct r restrict_loan)
      (simp add: csv_repeated_id_def)
  have ids: "column ''loan_id'' csv_repeated_id = map (\<lambda>i. IntC (int i)) [0..<50000] @ [IntC 0]"
    by (simp add: column_def csv_repeated_id_def first_chunk_def)
  have a: "column ''loan_id'' csv_repeated_id ! 0 = IntC 0"
    unfolding ids by (simp add: nth_append)
  have b: "column ''loan_id'' csv_repeated_id ! 50000 = IntC 0"
    unfolding ids by (simp add: nth_append)
  have "IntC 0 \<in> set (map (\<lambda>i. IntC (int i)) [0..<50000])"
    by (simp add: image_iff) 
  then have c: "\<not> distinct (column ''loan_id'' csv_repeated_id)"
    unfolding ids by simp
  from full a b c show ?thesis by blast
qed


section \<open>The final refit\<close>

lemma objective_user_attrs:
  "objective lgb_train_es h t = Inr (t', v) \<Longrightarrow> user_attrs t' = user_attrs t"
  by (auto simp: objective_def split: sum.splits)

lemma optimize_user_attrs:
  "optimize sampler lgb_train_es n hist = Inr ts \<Longrightarrow> list_all (\<lambda>t. user_attrs t = []) hist
    \<Longrightarrow> list_all (\<lambda>t. user_attrs t = []) ts"
proof (induction n arbitrary: hist)
  case 0
  then show ?case by simp
next
  case (Suc n)
  from Suc.prems(1) obtain t v where
    o: "objective lgb_train_es (sampler hist) \<lparr>trial_params = [], user_attrs = [], trial_value = 0\<rparr>
          = Inr (t, v)"
    and r: "optimize sampler lgb_train_es n (hist @ [t\<lparr>trial_value := v\<rparr>]) = Inr ts"
    by (auto split: sum.splits)
  have "user_attrs t = []"
    using objective_user_attrs [OF o] by simp
  then show ?case
    using Suc.IH [OF r] Suc.prems(2) by simp
qed

lemma best_of_mem: "best_of b ts \<in> set (b # ts)"
  by (induction ts arbitrary: b) auto

text \<open>
  The objective sets no user attribute, so no trial of a study it ran holds a round
  count, and the refit after such a search runs the default 500 rounds.
\<close>

lemma refit_rounds_default:
  assumes "search_and_refit sampler lgb_train_es n full = Inr c"
  shows "call_rounds c = 500 \<and> call_data c = full"
proof -
  from assms obtain ts b where o: "optimize sampler lgb_train_es n [] = Inr ts"
    and b: "best_trial ts = Inr b" and c: "c = final_refit b full"
    by (auto simp: search_and_refit_def split: sum.splits)
  have "list_all (\<lambda>t. user_attrs t = []) ts"
    using optimize_user_attrs [OF o] by simp
  moreover have "b \<in> set ts"
    using b best_of_mem by (auto simp: best_trial_def split: list.splits)
  ultimately have "user_attrs b = []"
    by (auto simp: list_all_iff)
  then show ?thesis
    using c by (simp add: final_refit_def dict_get_def)
qed

lemma best_of_start: "trial_value b \<le> trial_value (best_of b ts)"
proof (induction ts arbitrary: b)
  case Nil
  then show ?case by simp
next
  case (Cons a ts)
  show ?case
    using Cons.IH [of a] Cons.IH [of b] by (simp split: if_splits)
qed

lemma best_of_max: "t \<in> set (b # ts) \<Longrightarrow> trial_value t \<le> trial_value (best_of b ts)"
proof (induction ts arbitrary: b)
  case Nil
  then show ?case by simp
next
  case (Cons a ts)
  let ?b = "if trial_value b < trial_value a then a else b"
  have s: "trial_value ?b \<le> trial_value (best_of ?b ts)"
    by (rule best_of_start)
  have "t = a \<or> t = b \<or> t \<in> set ts"
    using Cons.prems by auto
  then show ?case
  proof (elim disjE)
    assume "t = a"
    then show ?thesis using s by (simp split: if_splits)
  next
    assume "t = b"
    then show ?thesis using s by (simp split: if_splits)
  next
    assume "t \<in> set ts"
    then show ?thesis using Cons.IH [of ?b] by simp
  qed
qed

text \<open>
  When the search returns, the final call is the refit of a trial of the study whose
  value no other trial exceeds.
\<close>

lemma search_and_refit_best:
  assumes "search_and_refit sampler lgb_train_es n full = Inr c"
  shows "\<exists>ts b. optimize sampler lgb_train_es n [] = Inr ts \<and> b \<in> set ts
    \<and> (\<forall>t \<in> set ts. trial_value t \<le> trial_value b) \<and> c = final_refit b full"
proof -
  from assms obtain ts b where o: "optimize sampler lgb_train_es n [] = Inr ts"
    and b: "best_trial ts = Inr b" and c: "c = final_refit b full"
    by (auto simp: search_and_refit_def split: sum.splits)
  from b obtain t ts' where ts: "ts = t # ts'" and bb: "b = best_of t ts'"
    by (auto simp: best_trial_def split: list.splits)
  have "b \<in> set ts"
    using best_of_mem [of t ts'] ts bb by simp
  moreover have "\<forall>x \<in> set ts. trial_value x \<le> trial_value b"
    using best_of_max [of _ t ts'] ts bb by simp
  ultimately show ?thesis
    using o c by blast
qed




section \<open>The decision threshold of the endpoint\<close>

text \<open>
  C10. When the bundle's transform and model return, \<open>/predict\<close> answers with
  \<open>defaulted\<close> true exactly when the model's probability is at least 0.5, while
  the training-time labels \<open>preds_full > 0.5\<close> are true exactly above 0.5: the two
  decisions differ exactly at the probability 0.5, which the endpoint counts as a
  default and the training-time F1 does not.
\<close>

theorem predict_threshold:
  assumes "fe_transform (Dict (payload row)) = Inr df"
    and "model_predict df = Inr (p # ps)"
  shows "\<exists>r. predict fe_transform model_predict row = Inr r
           \<and> (defaulted r \<longleftrightarrow> 1 / 2 \<le> p)
           \<and> gt_half [p] = [1 / 2 < p]
           \<and> (gt_half [p] \<noteq> [defaulted r] \<longleftrightarrow> p = 1 / 2)"
  using assms by (auto simp: predict_def respond_def gt_half_def)

theorem predict_threshold_witness:
  "predict (\<lambda>a. Inr a) (\<lambda>df. Inr [1 / 2]) request0 = Inr \<lparr>prob = 1 / 2, defaulted = True\<rparr>
   \<and> gt_half [1 / 2] = [False]"
proof -
  obtain r where "predict (\<lambda>a. Inr a) (\<lambda>df. Inr [1 / 2 :: rat]) request0 = Inr r"
    and "defaulted r \<longleftrightarrow> (1 / 2 :: rat) \<le> 1 / 2" and "gt_half [1 / 2] = [(1 / 2 :: rat) < 1 / 2]"
    using predict_threshold [of "\<lambda>a. Inr a" request0 "Dict (payload request0)" "\<lambda>df. Inr [1 / 2]" "1 / 2" "[]"]
    by auto
  then show ?thesis
    by (simp add: predict_def respond_def round4_def)
qed

section \<open>Frames through the steps of transform\<close>

lemma columns_set_col:
  "columns (set_col n vs df) = (if n \<in> set (columns df) then columns df else columns df @ [n])"
  by (simp add: set_col_def)

lemma length_rows_set_col:
  "length vs = length (rows df) \<Longrightarrow> length (rows (set_col n vs df)) = length (rows df)"
  by (simp add: set_col_def)

lemma column_set_col:
  "length vs = length (rows df) \<Longrightarrow>
    column c (set_col n vs df) = (if c = n then vs else column c df)"
  by (auto simp: set_col_def column_def map2_map_map [symmetric] map_zip_map
      intro!: nth_equalityI)

lemma columns_drop_cols: "columns (drop_cols ns df) = filter (\<lambda>c. c \<notin> set ns) (columns df)"
  by (simp add: drop_cols_def)

lemma rows_drop_cols: "rows (drop_cols ns df) = rows df"
  by (simp add: drop_cols_def)

lemma column_drop_cols: "column c (drop_cols ns df) = column c df"
  by (simp add: drop_cols_def column_def)

lemma length_column: "length (column c df) = length (rows df)"
  by (simp add: column_def)

lemma length_te_transform: "length (te_transform enc xs) = length xs"
  by (simp add: te_transform_def)

lemma te_name_neq: "last c \<noteq> CHR ''e'' \<Longrightarrow> c \<noteq> [] \<Longrightarrow> col @ ''_te'' \<noteq> c"
  by (metis last_appendR last.simps list.distinct(1))

lemma target_encode_step_frame:
  "target_encode_step encs df = Inr d \<Longrightarrow> last c \<noteq> CHR ''e'' \<Longrightarrow> c \<noteq> []
    \<Longrightarrow> length (rows d) = length (rows df) \<and> column c d = column c df"
proof (induction encs arbitrary: df)
  case Nil
  then show ?case by simp
next
  case (Cons a encs)
  obtain col enc where a: "a = (col, enc)" by (cases a)
  let ?d = "drop_cols [col] (set_col (col @ ''_te'') (te_transform enc (column col df)) df)"
  from Cons.prems(1) a have r: "target_encode_step encs ?d = Inr d"
    by (auto split: if_splits)
  have l: "length (te_transform enc (column col df)) = length (rows df)"
    by (simp add: length_te_transform length_column)
  have "length (rows ?d) = length (rows df)"
    by (simp add: rows_drop_cols length_rows_set_col [OF l])
  moreover have "column c ?d = column c df"
    using te_name_neq [OF Cons.prems(2,3), of col]
    by (simp add: column_drop_cols column_set_col [OF l])
  ultimately show ?case
    using Cons.IH [OF r Cons.prems(2,3)] by simp
qed

lemma length_indicator: "length (indicator p rs) = length rs"
  by (simp add: indicator_def)

lemma fold_set_col_frame:
  assumes "\<forall>p \<in> set ps. length (vs p) = length (rows df)"
    and "\<forall>p \<in> set ps. name p \<noteq> c"
  shows "length (rows (fold (\<lambda>p d. set_col (name p) (vs p) d) ps df)) = length (rows df)
    \<and> column c (fold (\<lambda>p d. set_col (name p) (vs p) d) ps df) = column c df"
  using assms
proof (induction ps arbitrary: df)
  case Nil
  then show ?case by simp
next
  case (Cons p ps)
  have l: "length (vs p) = length (rows df)"
    using Cons.prems(1) by simp
  have 1: "length (rows (set_col (name p) (vs p) df)) = length (rows df)"
    by (rule length_rows_set_col [OF l])
  have 2: "column c (set_col (name p) (vs p) df) = column c df"
    using Cons.prems(2) by (auto simp: column_set_col [OF l])
  have "\<forall>q \<in> set ps. length (vs q) = length (rows (set_col (name p) (vs p) df))"
    using Cons.prems(1) 1 by simp
  moreover have "\<forall>q \<in> set ps. name q \<noteq> c"
    using Cons.prems(2) by simp
  ultimately show ?case
    using Cons.IH [of "set_col (name p) (vs p) df"] 1 2 by simp
qed

lemma ohe_pairs_col: "p \<in> set (ohe_pairs e) \<Longrightarrow> fst p \<in> set OHE_COLS"
  by (auto simp: ohe_pairs_def dest: set_zip_leftD)

lemma feature_name_neq:
  assumes "p \<in> set (ohe_pairs e)" and "c \<noteq> []" and "hd c \<notin> {CHR ''t'', CHR ''h'', CHR ''p''}"
  shows "feature_name p \<noteq> c"
proof -
  have "fst p \<in> set OHE_COLS"
    by (rule ohe_pairs_col [OF assms(1)])
  then have "hd (feature_name p) \<in> {CHR ''t'', CHR ''h'', CHR ''p''}"
    by (auto simp: OHE_COLS_def feature_name_def)
  then show ?thesis
    using assms(3) by auto
qed

lemma one_hot_step_frame:
  assumes "one_hot_step enc df = Inr d" and "c \<noteq> []"
    and "hd c \<notin> {CHR ''t'', CHR ''h'', CHR ''p''}"
  shows "length (rows d) = length (rows df) \<and> column c d = column c df"
proof -
  from assms(1) obtain e where
    d: "d = drop_cols OHE_COLS
         (fold (\<lambda>p d. set_col (feature_name p) (indicator p (rows df)) d) (ohe_pairs e) df)"
    by (auto simp: one_hot_step_def split: option.splits list.splits if_splits)
  have "\<forall>p \<in> set (ohe_pairs e). feature_name p \<noteq> c"
    using feature_name_neq [OF _ assms(2,3)] by blast
  then show ?thesis
    unfolding d rows_drop_cols column_drop_cols
    by (intro fold_set_col_frame) (simp_all add: length_indicator)
qed

lemma length_woe_bucket: "woe_bucket env cs n = Inr codes \<Longrightarrow> length codes = length cs"
  by (auto simp: woe_bucket_def split: sum.splits)

lemma woe_step_frame:
  assumes "woe_step env WOE_COLS df = Inr d"
  shows "length (rows d) = length (rows df)
    \<and> columns d = filter (\<lambda>x. x \<noteq> ''revol_util'')
         (columns (set_col ''revol_util_woe'' []
            (drop_cols [''dti''] (set_col ''dti_woe'' [] df))))
    \<and> woe_bucket env (column ''dti'' df) 10 = Inr (column ''dti_woe'' d)
    \<and> woe_bucket env (column ''revol_util'' df) 10 = Inr (column ''revol_util_woe'' d)
    \<and> (c \<notin> {''dti_woe'', ''revol_util_woe''} \<longrightarrow> column c d = column c df)"
proof -
  from assms obtain c1 where c1: "woe_bucket env (column ''dti'' df) 10 = Inr c1"
    by (auto simp: WOE_COLS_def split: if_splits sum.splits)
  let ?d1 = "drop_cols [''dti''] (set_col ''dti_woe'' c1 df)"
  from assms c1 obtain c2 where c2: "woe_bucket env (column ''revol_util'' ?d1) 10 = Inr c2"
    and d: "d = drop_cols [''revol_util''] (set_col ''revol_util_woe'' c2 ?d1)"
    by (auto simp: WOE_COLS_def split: if_splits sum.splits)
  have l1: "length c1 = length (rows df)"
    using length_woe_bucket [OF c1] by (simp add: length_column)
  have r1: "length (rows ?d1) = length (rows df)"
    by (simp add: rows_drop_cols length_rows_set_col [OF l1])
  have l2: "length c2 = length (rows ?d1)"
    using length_woe_bucket [OF c2] by (simp add: length_column)
  have col1: "\<And>x. column x ?d1 = (if x = ''dti_woe'' then c1 else column x df)"
    by (simp add: column_drop_cols column_set_col [OF l1])
  have col2: "\<And>x. column x d = (if x = ''revol_util_woe'' then c2 else column x ?d1)"
    unfolding d by (simp add: column_drop_cols column_set_col [OF l2])
  have "length (rows d) = length (rows df)"
    unfolding d using r1 by (simp add: rows_drop_cols length_rows_set_col [OF l2])
  moreover have "columns d = filter (\<lambda>x. x \<noteq> ''revol_util'')
         (columns (set_col ''revol_util_woe'' []
            (drop_cols [''dti''] (set_col ''dti_woe'' [] df))))"
    unfolding d by (simp add: columns_drop_cols columns_set_col)
  moreover have "column ''dti_woe'' d = c1"
    by (simp add: col2 col1)
  moreover have "column ''revol_util_woe'' d = c2"
    by (simp add: col2)
  moreover have "column ''revol_util'' ?d1 = column ''revol_util'' df"
    by (simp add: col1)
  moreover have "c \<notin> {''dti_woe'', ''revol_util_woe''} \<longrightarrow> column c d = column c df"
    by (simp add: col2 col1)
  ultimately show ?thesis
    using c1 c2 by simp
qed

lemma length_those_fl: "those_fl cs = Inr xs \<Longrightarrow> length xs = length cs"
  by (induction cs arbitrary: xs) (auto split: option.splits sum.splits)

lemma interaction_step_frame:
  assumes "interaction_step df out_df = Inr d" and "length (rows out_df) = length (rows df)"
    and "c \<notin> {''loan_to_income'', ''dti_emp_inter''}"
  shows "length (rows d) = length (rows df) \<and> column c d = column c out_df
    \<and> columns d = columns (set_col ''dti_emp_inter'' [] (set_col ''loan_to_income'' [] out_df))"
proof -
  from assms(1) obtain amnt inc dt emp where
    a: "those_fl (column ''loan_amnt'' out_df) = Inr amnt"
    and i: "those_fl (column ''annual_inc'' out_df) = Inr inc"
    and t: "those_fl (column ''dti'' df) = Inr dt"
    and e: "those_fl (column ''emp_length'' df) = Inr emp"
    and d: "d = set_col ''dti_emp_inter'' (map2 (\<lambda>a b. of_fl (fmul a b)) dt emp)
              (set_col ''loan_to_income''
                 (map2 (\<lambda>a b. of_fl (fdiv a (fadd b (Fin 1)))) amnt inc) out_df)"
    by (auto simp: interaction_step_def split: list.splits sum.splits)
  let ?v1 = "map2 (\<lambda>a b. of_fl (fdiv a (fadd b (Fin 1)))) amnt inc"
  let ?v2 = "map2 (\<lambda>a b. of_fl (fmul a b)) dt emp"
  have l1: "length ?v1 = length (rows out_df)"
    using length_those_fl [OF a] length_those_fl [OF i] by (simp add: length_column)
  have r1: "length (rows (set_col ''loan_to_income'' ?v1 out_df)) = length (rows out_df)"
    by (rule length_rows_set_col [OF l1])
  have l2: "length ?v2 = length (rows (set_col ''loan_to_income'' ?v1 out_df))"
    using length_those_fl [OF t] length_those_fl [OF e] r1 assms(2) by (simp add: length_column)
  show ?thesis
    unfolding d using assms(2,3) r1
    by (simp add: length_rows_set_col [OF l2] column_set_col [OF l2] column_set_col [OF l1]
        columns_set_col)
qed

lemma length_those_cells: "those_cells cs = Inr xs \<Longrightarrow> length xs = length cs"
  by (induction cs arbitrary: xs rule: those_cells.induct) (auto split: sum.splits)

lemma macro_join_frame:
  assumes "macro_join env df out_df = Inr d" and "length (rows out_df) = length (rows df)"
    and "c \<in> set (columns out_df)" and "c \<noteq> ''issue_ym''"
  shows "column c d = column c out_df"
proof -
  from assms(1) obtain yms where y: "those_cells (map (to_period env) (column ''issue_d'' df)) = Inr yms"
    and no: "filter (\<lambda>c. c \<in> set (columns (set_col ''issue_ym'' yms out_df))) (macro_columns env) = []"
    and d: "d = drop_cols [''issue_ym'']
              \<lparr>columns = columns (set_col ''issue_ym'' yms out_df) @ macro_columns env,
               rows = map (join_row env) (rows (set_col ''issue_ym'' yms out_df))\<rparr>"
    by (auto simp: macro_join_def Let_def split: if_splits sum.splits)
  have l: "length yms = length (rows out_df)"
    using length_those_cells [OF y] assms(2) by (simp add: length_column)
  have "c \<in> set (columns (set_col ''issue_ym'' yms out_df))"
    using assms(3) by (simp add: columns_set_col)
  then have "c \<notin> set (macro_columns env)"
    using no by (auto simp: filter_empty_conv)
  then have "column c d = column c (set_col ''issue_ym'' yms out_df)"
    unfolding d by (simp add: column_def drop_cols_def join_row_def Let_def)
  then show ?thesis
    using assms(4) by (simp add: column_set_col [OF l])
qed

lemma transform_woe:
  assumes "transform_frame env self df = Inr out"
  shows "woe_bucket env (column ''dti'' df) 10 = Inr (column ''dti_woe'' out)
    \<and> woe_bucket env (column ''revol_util'' df) 10 = Inr (column ''revol_util_woe'' out)"
proof -
  from assms obtain d1 d2 d3 d4 where
    1: "target_encode_step (target_encoders self) df = Inr d1"
    and 2: "one_hot_step (ohe self) d1 = Inr d2"
    and 3: "woe_step env WOE_COLS d2 = Inr d3"
    and 4: "interaction_step df d3 = Inr d4"
    and 5: "macro_join env df d4 = Inr out"
    by (auto simp: transform_frame_def split: if_splits sum.splits)
  note s1 = target_encode_step_frame [OF 1]
  note s2 = one_hot_step_frame [OF 2]
  note s3 = woe_step_frame [OF 3]
  have len3: "length (rows d3) = length (rows df)"
    using s1 [of "''dti''"] s2 [of "''dti''"] s3 by simp
  have dti: "column ''dti'' d2 = column ''dti'' df"
    using s1 [of "''dti''"] s2 [of "''dti''"] by simp
  have rev: "column ''revol_util'' d2 = column ''revol_util'' df"
    using s1 [of "''revol_util''"] s2 [of "''revol_util''"] by simp
  have in3: "''dti_woe'' \<in> set (columns d3) \<and> ''revol_util_woe'' \<in> set (columns d3)"
    using s3 [of "[]"] by (auto simp: columns_set_col columns_drop_cols)
  note s4 = interaction_step_frame [OF 4 len3]
  have in4: "''dti_woe'' \<in> set (columns d4) \<and> ''revol_util_woe'' \<in> set (columns d4)"
    using s4 [of "''dti_woe''"] in3 by (auto simp: columns_set_col)
  have len4: "length (rows d4) = length (rows df)"
    using s4 [of "''dti_woe''"] by simp
  have a: "column ''dti_woe'' out = column ''dti_woe'' d3"
    using macro_join_frame [OF 5 len4, of "''dti_woe''"] in4 s4 [of "''dti_woe''"] by simp
  have b: "column ''revol_util_woe'' out = column ''revol_util_woe'' d3"
    using macro_join_frame [OF 5 len4, of "''revol_util_woe''"] in4 s4 [of "''revol_util_woe''"]
    by simp
  show ?thesis
    using s3 [of "[]"] a b dti rev by simp
qed

lemma filter_neq_absent: "x \<notin> set xs \<Longrightarrow> filter (\<lambda>c. c \<noteq> x) xs = xs"
  by (induction xs) auto

lemma fold_set_col_columns:
  "distinct (map name ps) \<Longrightarrow> set (map name ps) \<inter> set (columns df) = {}
    \<Longrightarrow> columns (fold (\<lambda>p d. set_col (name p) (vs p) d) ps df) = columns df @ map name ps"
proof (induction ps arbitrary: df)
  case Nil
  then show ?case by simp
next
  case (Cons p ps)
  have n: "name p \<notin> set (columns df)"
    using Cons.prems(2) by auto
  have c: "columns (set_col (name p) (vs p) df) = columns df @ [name p]"
    using n by (simp add: columns_set_col)
  have "set (map name ps) \<inter> set (columns (set_col (name p) (vs p) df)) = {}"
    using Cons.prems c by auto
  then show ?case
    using Cons.IH [of "set_col (name p) (vs p) df"] Cons.prems(1) c by simp
qed

lemma transform_columns:
  assumes t: "transform_frame env self df = Inr out"
    and te: "map fst (target_encoders self) = TARGET_ENC_COLS"
    and oh: "ohe self = Some enc"
    and dist: "distinct (generated_columns enc @ [''issue_ym''])"
    and fresh: "set (generated_columns enc @ [''issue_ym'']) \<inter> set (columns df) = {}"
  shows "columns out = passed_through (columns df) @ generated_columns enc @ macro_columns env"
proof -
  define names where "names = get_feature_names_out enc"
  from te obtain tenc where encs: "target_encoders self = [(''emp_length'', tenc)]"
    by (cases "target_encoders self") (auto simp: TARGET_ENC_COLS_def)
  from t obtain d1 d2 d3 d4 where
    1: "target_encode_step (target_encoders self) df = Inr d1"
    and 2: "one_hot_step (ohe self) d1 = Inr d2"
    and 3: "woe_step env WOE_COLS d2 = Inr d3"
    and 4: "interaction_step df d3 = Inr d4"
    and 5: "macro_join env df d4 = Inr out"
    by (auto simp: transform_frame_def split: if_splits sum.splits)
  have gen: "generated_columns enc = ''emp_length_te'' # names
      @ [''dti_woe'', ''revol_util_woe'', ''loan_to_income'', ''dti_emp_inter'']"
    by (simp add: generated_columns_def names_def TARGET_ENC_COLS_def WOE_COLS_def)
  have nfresh: "\<forall>n \<in> set names. n \<notin> set (columns df)"
    using fresh gen by auto
  have nhd: "\<forall>n \<in> set names. hd n \<in> {CHR ''t'', CHR ''h'', CHR ''p''} \<and> n \<noteq> []"
    by (auto simp: names_def get_feature_names_out_def feature_name_def OHE_COLS_def
        dest!: ohe_pairs_col)
  have nfix: "\<forall>n \<in> set names. n \<noteq> ''emp_length_te'' \<and> n \<noteq> ''emp_length''
      \<and> n \<noteq> ''dti'' \<and> n \<noteq> ''revol_util'' \<and> n \<noteq> ''dti_woe'' \<and> n \<noteq> ''revol_util_woe''
      \<and> n \<noteq> ''loan_to_income'' \<and> n \<noteq> ''dti_emp_inter'' \<and> n \<noteq> ''issue_ym''"
    using nhd by fastforce
  have ffix: "''emp_length_te'' \<notin> set (columns df)" "''dti_woe'' \<notin> set (columns df)"
    "''revol_util_woe'' \<notin> set (columns df)" "''loan_to_income'' \<notin> set (columns df)"
    "''dti_emp_inter'' \<notin> set (columns df)" "''issue_ym'' \<notin> set (columns df)"
    using fresh gen by auto
  \<comment> \<open>step 1\<close>
  have c1: "columns d1 = filter (\<lambda>c. c \<noteq> ''emp_length'') (columns df) @ [''emp_length_te'']"
    using 1 ffix(1) by (auto simp: encs columns_drop_cols columns_set_col split: if_splits)
  \<comment> \<open>step 2\<close>
  have ohe_in: "set OHE_COLS \<subseteq> set (columns d1)"
    using 2 oh by (auto simp: one_hot_step_def filter_empty_conv split: list.splits if_splits)
  have d2: "d2 = drop_cols OHE_COLS
      (fold (\<lambda>p d. set_col (feature_name p) (indicator p (rows d1)) d) (ohe_pairs enc) d1)"
    using 2 oh by (auto simp: one_hot_step_def split: list.splits if_splits)
  have dn: "distinct (map feature_name (ohe_pairs enc))"
    using dist gen by (simp add: names_def get_feature_names_out_def)
  have "set (map feature_name (ohe_pairs enc)) \<inter> set (columns d1) = {}"
    using nfresh nfix unfolding c1 names_def get_feature_names_out_def by auto
  then have c2a: "columns (fold (\<lambda>p d. set_col (feature_name p) (indicator p (rows d1)) d)
      (ohe_pairs enc) d1) = columns d1 @ names"
    using fold_set_col_columns [OF dn] by (simp add: names_def get_feature_names_out_def)
  have nohe: "\<forall>n \<in> set names. n \<notin> set OHE_COLS"
    using ohe_in nfresh nfix unfolding c1 by auto
  have c2: "columns d2 = filter (\<lambda>c. c \<notin> set (''emp_length'' # OHE_COLS)) (columns df)
      @ ''emp_length_te'' # names"
    unfolding d2 columns_drop_cols c2a c1 using nohe
    by (auto simp: OHE_COLS_def filter_id_conv)
  \<comment> \<open>step 3\<close>
  have w: "''dti_woe'' \<notin> set (columns d2)" "''revol_util_woe'' \<notin> set (columns d2)"
    unfolding c2 using ffix nfix by auto
  have c3a: "columns d3 = filter (\<lambda>x. x \<noteq> ''revol_util'') (filter (\<lambda>x. x \<noteq> ''dti'') (columns d2))
      @ [''dti_woe'', ''revol_util_woe'']"
    using woe_step_frame [OF 3, of "[]"] w
    by (simp add: columns_set_col columns_drop_cols)
  have keep: "filter (\<lambda>x. x \<noteq> ''dti'' \<and> x \<noteq> ''revol_util'') names = names"
    using nfix by (simp add: filter_id_conv)
  have c3: "columns d3 = filter (\<lambda>c. c \<notin> set (''emp_length'' # OHE_COLS @ WOE_COLS)) (columns df)
      @ ''emp_length_te'' # names @ [''dti_woe'', ''revol_util_woe'']"
    unfolding c3a c2 by (simp add: keep WOE_COLS_def conj_commute conj_left_commute cong: filter_cong)
  \<comment> \<open>step 4\<close>
  have len3: "length (rows d3) = length (rows df)"
    using target_encode_step_frame [OF 1, of "''dti''"] one_hot_step_frame [OF 2, of "''dti''"]
      woe_step_frame [OF 3, of "[]"] by simp
  have i: "''loan_to_income'' \<notin> set (columns d3)" "''dti_emp_inter'' \<notin> set (columns d3)"
    unfolding c3 using ffix nfix by auto
  have c4: "columns d4 = columns d3 @ [''loan_to_income'', ''dti_emp_inter'']"
    using interaction_step_frame [OF 4 len3, of "[]"] i by (simp add: columns_set_col)
  \<comment> \<open>step 5\<close>
  from 5 obtain yms where
    no: "filter (\<lambda>c. c \<in> set (columns (set_col ''issue_ym'' yms d4))) (macro_columns env) = []"
    and out: "out = drop_cols [''issue_ym'']
              \<lparr>columns = columns (set_col ''issue_ym'' yms d4) @ macro_columns env,
               rows = map (join_row env) (rows (set_col ''issue_ym'' yms d4))\<rparr>"
    by (auto simp: macro_join_def Let_def split: if_splits sum.splits)
  have y4: "''issue_ym'' \<notin> set (columns d4)"
    unfolding c4 c3 using ffix nfix by auto
  have ym: "''issue_ym'' \<notin> set (macro_columns env)"
    using no y4 by (fastforce simp: filter_empty_conv columns_set_col)
  have "columns out = columns d4 @ macro_columns env"
    unfolding out using y4 ym by (simp add: columns_drop_cols columns_set_col filter_neq_absent)
  then show ?thesis
    unfolding c4 c3 gen passed_through_def by (simp add: TARGET_ENC_COLS_def)
qed

lemma set_str_insert: "set (str_insert x ys) = insert x (set ys)"
  by (induction ys) auto

lemma distinct_str_insert: "distinct (str_insert x ys) = (x \<notin> set ys \<and> distinct ys)"
  by (induction ys) (auto simp: set_str_insert)

lemma set_str_sort: "set (str_sort xs) = set xs"
  by (induction xs) (auto simp: str_sort_def set_str_insert)

lemma distinct_str_sort: "distinct xs \<Longrightarrow> distinct (str_sort xs)"
  by (induction xs) (auto simp: str_sort_def distinct_str_insert set_str_sort [unfolded str_sort_def])

lemma ohe_fit_cols_distinct:
  "ohe_fit_cols cs df = Inr cats \<Longrightarrow> length cats = length cs \<and> list_all distinct cats"
  by (induction cs arbitrary: cats) (auto split: sum.splits simp: distinct_str_sort)

lemma feature_names_three:
  "get_feature_names_out \<lparr>categories = [a, b, c]\<rparr> =
     map (\<lambda>x. ''term_'' @ x) a @ map (\<lambda>x. ''home_ownership_'' @ x) b
       @ map (\<lambda>x. ''purpose_'' @ x) c"
  by (simp add: get_feature_names_out_def ohe_pairs_def OHE_COLS_def feature_name_def comp_def)

lemma generated_distinct:
  assumes "distinct a" "distinct b" "distinct c"
  shows "distinct (generated_columns \<lparr>categories = [a, b, c]\<rparr> @ [''issue_ym''])"
proof -
  have i: "\<And>p xs. distinct xs \<Longrightarrow> distinct (map ((@) p) xs)"
    by (simp add: distinct_map inj_on_def)
  show ?thesis
    unfolding generated_columns_def feature_names_three
    using i [OF assms(1)] i [OF assms(2)] i [OF assms(3)]
    by (auto simp: TARGET_ENC_COLS_def WOE_COLS_def)
qed

lemma fit_target_encoders_keys:
  "fit_target_encoders smooth [''emp_length''] df y [] = Inr encs \<Longrightarrow> map fst encs = [''emp_length'']"
  by (auto split: if_splits sum.splits)

lemma fit_state:
  assumes "fit smooth FeatureEngineer df y = Inr st"
  shows "fitted st \<and> map fst (target_encoders st) = TARGET_ENC_COLS
    \<and> (\<exists>enc. ohe st = Some enc \<and> distinct (generated_columns enc @ [''issue_ym'']))"
proof -
  from assms obtain encs cats where
    e: "fit_target_encoders smooth TARGET_ENC_COLS df y [] = Inr encs"
    and c: "ohe_fit_cols OHE_COLS df = Inr cats"
    and st: "st = \<lparr>target_encoders = encs, ohe = Some \<lparr>categories = cats\<rparr>, fitted = True\<rparr>"
    by (auto simp: fit_def FeatureEngineer_def split: sum.splits list.splits if_splits)
  have k: "map fst encs = TARGET_ENC_COLS"
    using e fit_target_encoders_keys by (simp add: TARGET_ENC_COLS_def)
  from ohe_fit_cols_distinct [OF c] obtain a b c' where
    cats: "cats = [a, b, c']" and d: "distinct a" "distinct b" "distinct c'"
    by (auto simp: OHE_COLS_def length_Suc_conv)
  show ?thesis
    using k generated_distinct [OF d] by (simp add: st cats)
qed


section \<open>The computed columns are numeric\<close>

lemma numeric_set_col:
  assumes "length vs = length (rows df)"
  shows "numeric_column c (set_col n vs df) =
     (if c = n then list_all numeric vs else numeric_column c df)"
  using assms by (auto simp: numeric_column_def columns_set_col column_set_col)

lemma numeric_drop_cols:
  "c \<notin> set ns \<Longrightarrow> numeric_column c (drop_cols ns df) = numeric_column c df"
  by (simp add: numeric_column_def columns_drop_cols column_drop_cols)

lemma numeric_te_transform: "list_all numeric (te_transform enc xs)"
  by (simp add: te_transform_def list_all_iff)

lemma numeric_indicator: "list_all numeric (indicator p rs)"
  by (simp add: indicator_def list_all_iff)

lemma numeric_of_fl: "numeric (of_fl x)"
  by (cases x) auto

lemma fold_set_col_numeric:
  assumes "\<forall>p \<in> set ps. length (vs p) = length (rows df) \<and> list_all numeric (vs p)"
    and "numeric_column c df \<or> c \<in> name ` set ps"
  shows "numeric_column c (fold (\<lambda>p d. set_col (name p) (vs p) d) ps df)"
  using assms
proof (induction ps arbitrary: df)
  case Nil
  then show ?case by simp
next
  case (Cons p ps)
  have l: "length (vs p) = length (rows df)" and n: "list_all numeric (vs p)"
    using Cons.prems(1) by simp_all
  have r: "length (rows (set_col (name p) (vs p) df)) = length (rows df)"
    by (rule length_rows_set_col [OF l])
  have a: "\<forall>q \<in> set ps. length (vs q) = length (rows (set_col (name p) (vs p) df))
      \<and> list_all numeric (vs q)"
    using Cons.prems(1) r by simp
  have b: "numeric_column c (set_col (name p) (vs p) df) \<or> c \<in> name ` set ps"
    using Cons.prems(2) n by (auto simp: numeric_set_col [OF l])
  show ?case
    using Cons.IH [OF a b] by simp
qed

lemma feature_name_not_ohe_col: "p \<in> set (ohe_pairs e) \<Longrightarrow> feature_name p \<notin> set OHE_COLS"
  by (auto simp: OHE_COLS_def feature_name_def dest!: ohe_pairs_col)

lemma one_hot_step_numeric:
  assumes "one_hot_step (Some e) df = Inr d"
    and "(numeric_column c df \<and> c \<notin> set OHE_COLS) \<or> c \<in> set (get_feature_names_out e)"
  shows "numeric_column c d"
proof -
  from assms(1) have
    d: "d = drop_cols OHE_COLS
         (fold (\<lambda>p d. set_col (feature_name p) (indicator p (rows df)) d) (ohe_pairs e) df)"
    by (auto simp: one_hot_step_def split: list.splits if_splits)
  have c: "c \<notin> set OHE_COLS"
    using assms(2) feature_name_not_ohe_col [of _ e]
    by (auto simp: get_feature_names_out_def)
  have "numeric_column c
      (fold (\<lambda>p d. set_col (feature_name p) (indicator p (rows df)) d) (ohe_pairs e) df)"
    by (rule fold_set_col_numeric)
      (use assms(2) in \<open>auto simp: length_indicator numeric_indicator get_feature_names_out_def\<close>)
  then show ?thesis
    unfolding d by (simp add: numeric_drop_cols [OF c])
qed

lemma numeric_woe_bucket: "woe_bucket env cs n = Inr codes \<Longrightarrow> list_all numeric codes"
  by (auto simp: woe_bucket_def list_all_iff split: sum.splits)

lemma woe_step_numeric:
  assumes "woe_step env WOE_COLS df = Inr d"
    and "(numeric_column c df \<and> c \<notin> set WOE_COLS) \<or> c \<in> {''dti_woe'', ''revol_util_woe''}"
  shows "numeric_column c d"
proof -
  from assms(1) obtain c1 where c1: "woe_bucket env (column ''dti'' df) 10 = Inr c1"
    by (auto simp: WOE_COLS_def split: if_splits sum.splits)
  let ?d1 = "drop_cols [''dti''] (set_col ''dti_woe'' c1 df)"
  from assms(1) c1 obtain c2 where c2: "woe_bucket env (column ''revol_util'' ?d1) 10 = Inr c2"
    and d: "d = drop_cols [''revol_util''] (set_col ''revol_util_woe'' c2 ?d1)"
    by (auto simp: WOE_COLS_def split: if_splits sum.splits)
  have l1: "length c1 = length (rows df)"
    using length_woe_bucket [OF c1] by (simp add: length_column)
  have l2: "length c2 = length (rows ?d1)"
    using length_woe_bucket [OF c2] by (simp add: length_column)
  have c: "c \<noteq> ''dti''" "c \<noteq> ''revol_util''"
    using assms(2) by (auto simp: WOE_COLS_def)
  have 1: "numeric_column c ?d1 = (if c = ''dti_woe'' then True else numeric_column c df)"
    using c numeric_woe_bucket [OF c1]
    by (simp add: numeric_drop_cols numeric_set_col [OF l1])
  have 2: "numeric_column c d = (if c = ''revol_util_woe'' then True else numeric_column c ?d1)"
    unfolding d using c numeric_woe_bucket [OF c2]
    by (simp add: numeric_drop_cols numeric_set_col [OF l2])
  show ?thesis
    using assms(2) by (auto simp: 1 2)
qed

lemma interaction_step_numeric:
  assumes "interaction_step df out_df = Inr d" and "length (rows out_df) = length (rows df)"
    and "numeric_column c out_df \<or> c \<in> {''loan_to_income'', ''dti_emp_inter''}"
  shows "numeric_column c d"
proof -
  from assms(1) obtain amnt inc dt emp where
    a: "those_fl (column ''loan_amnt'' out_df) = Inr amnt"
    and i: "those_fl (column ''annual_inc'' out_df) = Inr inc"
    and t: "those_fl (column ''dti'' df) = Inr dt"
    and e: "those_fl (column ''emp_length'' df) = Inr emp"
    and d: "d = set_col ''dti_emp_inter'' (map2 (\<lambda>a b. of_fl (fmul a b)) dt emp)
              (set_col ''loan_to_income''
                 (map2 (\<lambda>a b. of_fl (fdiv a (fadd b (Fin 1)))) amnt inc) out_df)"
    by (auto simp: interaction_step_def split: list.splits sum.splits)
  let ?v1 = "map2 (\<lambda>a b. of_fl (fdiv a (fadd b (Fin 1)))) amnt inc"
  let ?v2 = "map2 (\<lambda>a b. of_fl (fmul a b)) dt emp"
  have l1: "length ?v1 = length (rows out_df)"
    using length_those_fl [OF a] length_those_fl [OF i] by (simp add: length_column)
  have r1: "length (rows (set_col ''loan_to_income'' ?v1 out_df)) = length (rows out_df)"
    by (rule length_rows_set_col [OF l1])
  have l2: "length ?v2 = length (rows (set_col ''loan_to_income'' ?v1 out_df))"
    using length_those_fl [OF t] length_those_fl [OF e] r1 assms(2) by (simp add: length_column)
  have n1: "list_all numeric ?v1" and n2: "list_all numeric ?v2"
    by (auto simp: list_all_iff numeric_of_fl)
  show ?thesis
    unfolding d using assms(3) n1 n2
    by (auto simp: numeric_set_col [OF l2] numeric_set_col [OF l1])
qed

lemma macro_join_numeric:
  assumes "macro_join env df out_df = Inr d" and "length (rows out_df) = length (rows df)"
    and "numeric_column c out_df" and "c \<noteq> ''issue_ym''"
  shows "numeric_column c d"
proof -
  from assms(1) obtain yms where
    d: "d = drop_cols [''issue_ym'']
              \<lparr>columns = columns (set_col ''issue_ym'' yms out_df) @ macro_columns env,
               rows = map (join_row env) (rows (set_col ''issue_ym'' yms out_df))\<rparr>"
    by (auto simp: macro_join_def Let_def split: if_splits sum.splits)
  have in4: "c \<in> set (columns out_df)"
    using assms(3) by (simp add: numeric_column_def)
  have "column c d = column c out_df"
    by (rule macro_join_frame [OF assms(1,2) in4 assms(4)])
  moreover have "c \<in> set (columns d)"
    unfolding d using in4 assms(4) by (simp add: columns_drop_cols columns_set_col)
  ultimately show ?thesis
    using assms(3) by (simp add: numeric_column_def)
qed

lemma transform_numeric:
  assumes t: "transform_frame env self df = Inr out"
    and te: "map fst (target_encoders self) = TARGET_ENC_COLS"
    and oh: "ohe self = Some enc"
  shows "list_all (\<lambda>c. numeric_column c out) (generated_columns enc)"
proof -
  define names where "names = get_feature_names_out enc"
  from te obtain tenc where encs: "target_encoders self = [(''emp_length'', tenc)]"
    by (cases "target_encoders self") (auto simp: TARGET_ENC_COLS_def)
  from t obtain d1 d2 d3 d4 where
    s1: "target_encode_step (target_encoders self) df = Inr d1"
    and s2: "one_hot_step (Some enc) d1 = Inr d2"
    and s3: "woe_step env WOE_COLS d2 = Inr d3"
    and s4: "interaction_step df d3 = Inr d4"
    and s5: "macro_join env df d4 = Inr out"
    by (auto simp: transform_frame_def oh split: if_splits sum.splits)
  have len3: "length (rows d3) = length (rows df)"
    using target_encode_step_frame [OF s1, of "''dti''"] one_hot_step_frame [OF s2, of "''dti''"]
      woe_step_frame [OF s3, of "[]"] by simp
  have len4: "length (rows d4) = length (rows df)"
    using interaction_step_frame [OF s4 len3, of "[]"] by simp
  have d1: "d1 = drop_cols [''emp_length'']
      (set_col ''emp_length_te'' (te_transform tenc (column ''emp_length'' df)) df)"
    using s1 by (auto simp: encs split: if_splits)
  have lte: "length (te_transform tenc (column ''emp_length'' df)) = length (rows df)"
    by (simp add: length_te_transform length_column)
  have n1: "numeric_column ''emp_length_te'' d1"
    unfolding d1 by (simp add: numeric_drop_cols numeric_set_col [OF lte] numeric_te_transform)
  have gen: "generated_columns enc = ''emp_length_te'' # names
      @ [''dti_woe'', ''revol_util_woe'', ''loan_to_income'', ''dti_emp_inter'']"
    by (simp add: generated_columns_def names_def TARGET_ENC_COLS_def WOE_COLS_def)
  \<comment> \<open>the target-encoded column\<close>
  have "numeric_column ''emp_length_te'' d2"
    using one_hot_step_numeric [OF s2, of "''emp_length_te''"] n1 by (simp add: OHE_COLS_def)
  then have "numeric_column ''emp_length_te'' d3"
    using woe_step_numeric [OF s3, of "''emp_length_te''"] by (simp add: WOE_COLS_def)
  then have "numeric_column ''emp_length_te'' d4"
    using interaction_step_numeric [OF s4 len3, of "''emp_length_te''"] by simp
  then have A: "numeric_column ''emp_length_te'' out"
    using macro_join_numeric [OF s5 len4, of "''emp_length_te''"] by simp
  \<comment> \<open>the one-hot columns\<close>
  have B: "numeric_column n out" if n: "n \<in> set names" for n
  proof -
    have h: "n \<noteq> [] \<and> hd n \<in> {CHR ''t'', CHR ''h'', CHR ''p''}"
      using n by (auto simp: names_def get_feature_names_out_def feature_name_def OHE_COLS_def
          dest!: ohe_pairs_col)
    have ne: "n \<notin> set WOE_COLS" "n \<noteq> ''issue_ym''"
      using h by (auto simp: WOE_COLS_def)
    have "numeric_column n d2"
      using one_hot_step_numeric [OF s2, of n] n by (simp add: names_def)
    then have "numeric_column n d3"
      using woe_step_numeric [OF s3, of n] ne by simp
    then have "numeric_column n d4"
      using interaction_step_numeric [OF s4 len3, of n] by simp
    then show ?thesis
      using macro_join_numeric [OF s5 len4, of n] ne by simp
  qed
  \<comment> \<open>the bucket columns\<close>
  have "numeric_column ''dti_woe'' d3"
    using woe_step_numeric [OF s3, of "''dti_woe''"] by simp
  then have "numeric_column ''dti_woe'' d4"
    using interaction_step_numeric [OF s4 len3, of "''dti_woe''"] by simp
  then have C1: "numeric_column ''dti_woe'' out"
    using macro_join_numeric [OF s5 len4, of "''dti_woe''"] by simp
  have "numeric_column ''revol_util_woe'' d3"
    using woe_step_numeric [OF s3, of "''revol_util_woe''"] by simp
  then have "numeric_column ''revol_util_woe'' d4"
    using interaction_step_numeric [OF s4 len3, of "''revol_util_woe''"] by simp
  then have C2: "numeric_column ''revol_util_woe'' out"
    using macro_join_numeric [OF s5 len4, of "''revol_util_woe''"] by simp
  \<comment> \<open>the interaction columns\<close>
  have "numeric_column ''loan_to_income'' d4"
    using interaction_step_numeric [OF s4 len3, of "''loan_to_income''"] by simp
  then have D1: "numeric_column ''loan_to_income'' out"
    using macro_join_numeric [OF s5 len4, of "''loan_to_income''"] by simp
  have "numeric_column ''dti_emp_inter'' d4"
    using interaction_step_numeric [OF s4 len3, of "''dti_emp_inter''"] by simp
  then have D2: "numeric_column ''dti_emp_inter'' out"
    using macro_join_numeric [OF s5 len4, of "''dti_emp_inter''"] by simp
  have "list_all (\<lambda>c. numeric_column c out) names"
    using B by (simp add: list_all_iff)
  then show ?thesis
    unfolding gen using A C1 C2 D1 D2 by simp
qed

section \<open>Target encoding\<close>

text \<open>
  What a fitted target encoder gives: for a category seen at fit time the value of the
  library's smoothing rule on the category's count and label mean and the global label
  mean, for any other category and for a missing one the global label mean.
\<close>

lemma map_of_keyed: "map_of (map (\<lambda>k. (k, f k)) ks) k = (if k \<in> set ks then Some (f k) else None)"
  by (induction ks) auto

lemma te_fit_transform:
  assumes "te_fit smooth w xs y = Inr enc" and "label_values y = Inr ys"
  shows "te_transform enc [c] =
     [NumC (if c \<in> set xs \<and> c \<noteq> NA
            then smooth w (length (labels_of c xs ys)) (mean (labels_of c xs ys)) (mean ys)
            else mean ys)]"
  using assms
  by (auto simp: te_fit_def te_transform_def map_of_keyed unique_def split: if_splits)

section \<open>The bucket columns\<close>

text \<open>
  \<open>fit\<close> does not read the columns of \<open>WOE_COLS\<close>: two frames that differ in those
  columns only give the same fitted state.
\<close>

lemma fit_target_encoders_cong:
  "columns df = columns df' \<Longrightarrow> (\<And>c. c \<in> set cols \<Longrightarrow> column c df = column c df')
    \<Longrightarrow> fit_target_encoders smooth cols df y encs = fit_target_encoders smooth cols df' y encs"
  by (induction cols arbitrary: encs) (auto split: sum.splits)

lemma ohe_fit_cols_cong:
  "(\<And>c. c \<in> set cs \<Longrightarrow> column c df = column c df') \<Longrightarrow> ohe_fit_cols cs df = ohe_fit_cols cs df'"
  by (induction cs) (auto split: sum.splits)

lemma fit_ignores_woe_columns:
  assumes "columns df = columns df'"
    and "\<And>c. c \<notin> set WOE_COLS \<Longrightarrow> column c df = column c df'"
  shows "fit smooth self df y = fit smooth self df' y"
proof -
  have t: "fit_target_encoders smooth TARGET_ENC_COLS df y (target_encoders self)
      = fit_target_encoders smooth TARGET_ENC_COLS df' y (target_encoders self)"
    by (rule fit_target_encoders_cong [OF assms(1)], rule assms(2))
      (auto simp: TARGET_ENC_COLS_def WOE_COLS_def)
  have o: "ohe_fit_cols OHE_COLS df = ohe_fit_cols OHE_COLS df'"
    by (rule ohe_fit_cols_cong, rule assms(2)) (auto simp: OHE_COLS_def WOE_COLS_def)
  have "length (column ''term'' df) = length (column ''term'' df')"
    using assms(2) [of "''term''"] by (simp add: WOE_COLS_def)
  then have "length (rows df) = length (rows df')"
    by (simp add: column_def)
  then have r: "(rows df = []) = (rows df' = [])"
    by (metis length_0_conv)
  show ?thesis
    unfolding fit_def t o r assms(1) ..
qed



lemma fit0: "fit smoothed_mean FeatureEngineer train2 labels2 = Inr fitted0"
  by code_simp

lemma transform0_returns: "\<not> isl (transform macro0 fitted0 (Frame train2))"
  by code_simp

text \<open>
  The exact instance of \<open>qcut\<close> raises on a series with no value but NaN, and \<open>transform\<close>
  raises on a frame with no row.
\<close>

lemma woe_bucket_no_value:
  "woe_bucket macro0 [] 10 = Inl IndexError \<and> woe_bucket macro0 [NA, NA] 10 = Inl IndexError"
  by code_simp

lemma transform_no_rows:
  "map_sum id columns (transform macro0 fitted0 (Frame (train2\<lparr>rows := []\<rparr>))) = Inl ValueError"
  by code_simp

text \<open>
  C1, as amended. Whenever \<open>transform\<close> returns, each of the two bucket columns of its
  output holds the codes that \<open>pd.qcut\<close> with 10 quantiles gives to the values of the
  column \<open>dti\<close>, respectively \<open>revol_util\<close>, of the frame being transformed, when it is
  called on that column of the batch and on nothing else: the quantile edges are those
  of the batch itself, and the fitted state does not enter (\<open>fit\<close> stores no edges).
\<close>

theorem woe_columns_from_batch:
  assumes "transform env self (Frame df) = Inr out"
  shows "woe_bucket env (column ''dti'' df) 10 = Inr (column ''dti_woe'' out)
    \<and> woe_bucket env (column ''revol_util'' df) 10 = Inr (column ''revol_util_woe'' out)"
  using transform_woe [of env self df out] assms by simp

theorem woe_columns_from_batch_witness:
  "\<not> isl (transform macro0 fitted0 (Frame train2))
   \<and> woe_bucket macro0 (column ''dti'' train2) 10 = Inr [IntC 0, IntC 9]
   \<and> column ''dti_woe'' (projr (transform macro0 fitted0 (Frame train2))) = [IntC 0, IntC 9]"
proof -
  have h: "transform macro0 fitted0 (Frame train2)
      = Inr (projr (transform macro0 fitted0 (Frame train2)))"
    using transform0_returns by (cases "transform macro0 fitted0 (Frame train2)") auto
  have w: "woe_bucket macro0 (column ''dti'' train2) 10 = Inr [IntC 0, IntC 9]"
    by code_simp
  from woe_columns_from_batch [OF h] w
  have "column ''dti_woe'' (projr (transform macro0 fitted0 (Frame train2))) = [IntC 0, IntC 9]"
    by simp
  with transform0_returns w show ?thesis by simp
qed

text \<open>
  Counterexample to C1 as stated: with one fitted state, the dti value 2 is the second
  row of one batch and the first row of another, and gets bucket 9 in the first batch
  and bucket 0 in the second.
\<close>

theorem woe_bucket_depends_on_batch:
  "fit smoothed_mean FeatureEngineer train2 labels2 = Inr fitted0
   \<and> column ''dti'' train2 = [NumC 1, NumC 2]
   \<and> column ''dti'' batch_b = [NumC 2, NumC 3]
   \<and> map_sum id (column ''dti_woe'') (transform macro0 fitted0 (Frame train2))
       = Inr [IntC 0, IntC 9]
   \<and> map_sum id (column ''dti_woe'') (transform macro0 fitted0 (Frame batch_b))
       = Inr [IntC 0, IntC 9]"
proof -
  have 1: "column ''dti'' train2 = [NumC 1, NumC 2]"
    by code_simp
  have 2: "column ''dti'' batch_b = [NumC 2, NumC 3]"
    by code_simp
  have 3: "map_sum id (column ''dti_woe'') (transform macro0 fitted0 (Frame train2))
       = Inr [IntC 0, IntC 9]"
    by code_simp
  have 4: "map_sum id (column ''dti_woe'') (transform macro0 fitted0 (Frame batch_b))
       = Inr [IntC 0, IntC 9]"
    by code_simp
  from fit0 1 2 3 4 show ?thesis by simp
qed

section \<open>The output columns\<close>

lemma feature_layout_append: "feature_layout (xs @ ys) = feature_layout xs @ feature_layout ys"
  by (simp add: feature_layout_def)

lemma feature_layout_generated: "feature_layout (generated_columns enc) = generated_columns enc"
proof -
  have "feature_name p \<noteq> ''issue_d'' \<and> feature_name p \<noteq> ''date''"
    if "p \<in> set (ohe_pairs enc)" for p
    using feature_name_neq [OF that, of "''issue_d''"] feature_name_neq [OF that, of "''date''"]
    by simp
  then have "feature_layout (get_feature_names_out enc) = get_feature_names_out enc"
    by (simp add: feature_layout_def get_feature_names_out_def filter_id_conv)
  then show ?thesis
    by (simp add: generated_columns_def feature_layout_append)
      (simp add: feature_layout_def TARGET_ENC_COLS_def WOE_COLS_def)
qed

text \<open>
  C3, as amended. For a state returned by \<open>fit\<close> and an input frame none of whose
  columns has the name of a computed column (or of the join key \<open>issue_ym\<close>), the columns
  of the output, the two date columns \<open>issue_d\<close> and \<open>date\<close> left aside, are, in this
  order: the input's columns other than the target-encoded, one-hot and bucketed ones,
  in input order; the target-encoded column; the one-hot columns in vocabulary order;
  the two bucket columns; the two interaction columns; the columns of the macro table.
  Every computed column (target-encoded, one-hot, bucket, interaction) is numeric.
\<close>

theorem transform_column_order:
  assumes "fit smooth FeatureEngineer df0 y = Inr st"
    and "transform env st (Frame df) = Inr out"
    and "ohe st = Some enc"
    and "set (generated_columns enc @ [''issue_ym'']) \<inter> set (columns df) = {}"
  shows "feature_layout (columns out) =
      feature_layout (passed_through (columns df)) @ generated_columns enc
        @ feature_layout (macro_columns env)
    \<and> list_all (\<lambda>c. numeric_column c out) (generated_columns enc)"
proof -
  from fit_state [OF assms(1)] assms(3)
  have k: "map fst (target_encoders st) = TARGET_ENC_COLS"
    and d: "distinct (generated_columns enc @ [''issue_ym''])"
    by auto
  have t: "transform_frame env st df = Inr out"
    using assms(2) by simp
  have "columns out = passed_through (columns df) @ generated_columns enc @ macro_columns env"
    by (rule transform_columns [OF t k assms(3) d assms(4)])
  then have "feature_layout (columns out) =
      feature_layout (passed_through (columns df)) @ generated_columns enc
        @ feature_layout (macro_columns env)"
    by (simp add: feature_layout_append feature_layout_generated)
  then show ?thesis
    using transform_numeric [OF t k assms(3)] by simp
qed

text \<open>
  On the training frame of two loans: seven columns of the input, the identifier first,
  then the computed columns, then the two indicators of the macro table.
\<close>

theorem transform_column_order_witness:
  "fit smoothed_mean FeatureEngineer train2 labels2 = Inr fitted0
   \<and> \<not> isl (transform macro0 fitted0 (Frame train2))
   \<and> feature_layout (columns (projr (transform macro0 fitted0 (Frame train2)))) =
       [''loan_id'', ''loan_amnt'', ''annual_inc'', ''delinq_2yrs'', ''open_acc'', ''pub_rec'',
        ''total_acc'',
        ''emp_length_te'', ''term_36 months'', ''home_ownership_RENT'', ''purpose_car'',
        ''dti_woe'', ''revol_util_woe'', ''loan_to_income'', ''dti_emp_inter'',
        ''fed_funds'', ''unemployment'']"
proof -
  have h: "transform macro0 fitted0 (Frame train2)
      = Inr (projr (transform macro0 fitted0 (Frame train2)))"
    using transform0_returns by (cases "transform macro0 fitted0 (Frame train2)") auto
  have o: "ohe fitted0 = Some enc0"
    by (simp add: fitted0_def)
  have f: "set (generated_columns enc0 @ [''issue_ym'']) \<inter> set (columns train2) = {}"
    by code_simp
  have e: "feature_layout (passed_through (columns train2)) @ generated_columns enc0
        @ feature_layout (macro_columns macro0) =
       [''loan_id'', ''loan_amnt'', ''annual_inc'', ''delinq_2yrs'', ''open_acc'', ''pub_rec'',
        ''total_acc'',
        ''emp_length_te'', ''term_36 months'', ''home_ownership_RENT'', ''purpose_car'',
        ''dti_woe'', ''revol_util_woe'', ''loan_to_income'', ''dti_emp_inter'',
        ''fed_funds'', ''unemployment'']"
    by code_simp
  from transform_column_order [OF fit0 h o f] e fit0 transform0_returns
  show ?thesis by simp
qed

text \<open>
  Counterexample to C3 as stated: on the training frame of two loans the output starts
  with eight columns of the input, the identifier first, before the target-encoded
  column, and its column \<open>issue_d\<close> holds text.
\<close>

theorem transform_keeps_input_columns:
  "fit smoothed_mean FeatureEngineer train2 labels2 = Inr fitted0
   \<and> map_sum id columns (transform macro0 fitted0 (Frame train2)) =
       Inr [''loan_id'', ''loan_amnt'', ''annual_inc'', ''delinq_2yrs'', ''open_acc'',
            ''pub_rec'', ''total_acc'', ''issue_d'',
            ''emp_length_te'', ''term_36 months'', ''home_ownership_RENT'', ''purpose_car'',
            ''dti_woe'', ''revol_util_woe'', ''loan_to_income'', ''dti_emp_inter'',
            ''date'', ''fed_funds'', ''unemployment'']
   \<and> map_sum id (column ''issue_d'') (transform macro0 fitted0 (Frame train2)) =
       Inr [StrC ''2020-01-15'', StrC ''2020-01-15'']"
proof -
  have 1: "map_sum id columns (transform macro0 fitted0 (Frame train2)) =
       Inr [''loan_id'', ''loan_amnt'', ''annual_inc'', ''delinq_2yrs'', ''open_acc'',
            ''pub_rec'', ''total_acc'', ''issue_d'',
            ''emp_length_te'', ''term_36 months'', ''home_ownership_RENT'', ''purpose_car'',
            ''dti_woe'', ''revol_util_woe'', ''loan_to_income'', ''dti_emp_inter'',
            ''date'', ''fed_funds'', ''unemployment'']"
    by code_simp
  have 2: "map_sum id (column ''issue_d'') (transform macro0 fitted0 (Frame train2)) =
       Inr [StrC ''2020-01-15'', StrC ''2020-01-15'']"
    by code_simp
  from fit0 1 2 show ?thesis by simp
qed

section \<open>The serving path\<close>

text \<open>
  For one fitted state and one macro table, two input frames with the same columns give
  the same output columns, however many rows each has.
\<close>

lemma transform_columns_stable:
  assumes "fit smooth FeatureEngineer df0 y = Inr st"
    and "transform env st (Frame df1) = Inr out1"
    and "transform env st (Frame df2) = Inr out2"
    and "columns df1 = columns df2"
    and "ohe st = Some enc"
    and "set (generated_columns enc @ [''issue_ym'']) \<inter> set (columns df1) = {}"
  shows "columns out1 = columns out2"
proof -
  from fit_state [OF assms(1)] assms(5)
  have k: "map fst (target_encoders st) = TARGET_ENC_COLS"
    and d: "distinct (generated_columns enc @ [''issue_ym''])"
    by auto
  have 1: "columns out1 = passed_through (columns df1) @ generated_columns enc @ macro_columns env"
    using transform_columns [OF _ k assms(5) d assms(6)] assms(2) by simp
  have 2: "columns out2 = passed_through (columns df2) @ generated_columns enc @ macro_columns env"
    using transform_columns [OF _ k assms(5) d] assms(3,4,6) by simp
  show ?thesis
    using 1 2 assms(4) by simp
qed

text \<open>
  C2. The endpoint hands \<open>transform\<close> the request as a Python dict with the extra key
  \<open>defaulted\<close>. With the state fitted by train.py the call raises (the target encoder
  is handed a single value instead of a column and raises ValueError at line 95), so
  \<open>/predict\<close> answers 422 and no feature row of the training-time shape reaches the
  model. Even as a frame of one row the record would not give the
  training-time columns: the added \<open>defaulted\<close> is passed through as a column, 20
  columns against the 19 of the training matrix.
\<close>

theorem serving_path_shape:
  "fit smoothed_mean FeatureEngineer train2 labels2 = Inr fitted0
   \<and> predict (transform macro0 fitted0) model_predict request0 = Inl (HTTP422 ValueError)
   \<and> map_sum id columns (transform macro0 fitted0 (Frame train2)) =
       Inr [''loan_id'', ''loan_amnt'', ''annual_inc'', ''delinq_2yrs'', ''open_acc'',
            ''pub_rec'', ''total_acc'', ''issue_d'',
            ''emp_length_te'', ''term_36 months'', ''home_ownership_RENT'', ''purpose_car'',
            ''dti_woe'', ''revol_util_woe'', ''loan_to_income'', ''dti_emp_inter'',
            ''date'', ''fed_funds'', ''unemployment'']
   \<and> map_sum id columns (transform macro0 fitted0 (Frame (record_frame (payload request0)))) =
       Inr [''loan_id'', ''loan_amnt'', ''annual_inc'', ''delinq_2yrs'', ''open_acc'',
            ''pub_rec'', ''total_acc'', ''issue_d'', ''defaulted'',
            ''emp_length_te'', ''term_36 months'', ''home_ownership_RENT'', ''purpose_car'',
            ''dti_woe'', ''revol_util_woe'', ''loan_to_income'', ''dti_emp_inter'',
            ''date'', ''fed_funds'', ''unemployment'']"
proof -
  have 1: "transform macro0 fitted0 (Dict (payload request0)) = Inl ValueError"
    by (simp add: fitted0_def payload_def model_dump_def)
  have 2: "predict (transform macro0 fitted0) model_predict request0 = Inl (HTTP422 ValueError)"
    by (simp add: predict_def 1 del: transform.simps)
  have 3: "map_sum id columns (transform macro0 fitted0 (Frame train2)) =
       Inr [''loan_id'', ''loan_amnt'', ''annual_inc'', ''delinq_2yrs'', ''open_acc'',
            ''pub_rec'', ''total_acc'', ''issue_d'',
            ''emp_length_te'', ''term_36 months'', ''home_ownership_RENT'', ''purpose_car'',
            ''dti_woe'', ''revol_util_woe'', ''loan_to_income'', ''dti_emp_inter'',
            ''date'', ''fed_funds'', ''unemployment'']"
    by code_simp
  have 4: "map_sum id columns (transform macro0 fitted0 (Frame (record_frame (payload request0)))) =
       Inr [''loan_id'', ''loan_amnt'', ''annual_inc'', ''delinq_2yrs'', ''open_acc'',
            ''pub_rec'', ''total_acc'', ''issue_d'', ''defaulted'',
            ''emp_length_te'', ''term_36 months'', ''home_ownership_RENT'', ''purpose_car'',
            ''dti_woe'', ''revol_util_woe'', ''loan_to_income'', ''dti_emp_inter'',
            ''date'', ''fed_funds'', ''unemployment'']"
    by code_simp
  from fit0 2 3 4 show ?thesis by simp
qed

section \<open>The metrics and their reference formulas\<close>

lemma count_ge_split: "count_ge xs t = count_gt xs t + count_eq xs t"
  unfolding count_ge_def count_gt_def count_eq_def
  by (induction xs) auto

lemma kernel_sum: "(\<Sum>p \<leftarrow> ps. kernel p n) = count_gt ps n + count_eq ps n / 2"
  unfolding count_gt_def count_eq_def kernel_def
  by (induction ps) (auto simp: field_simps)

lemma won_single: "won ps ns {t} = count_eq ns t * (2 * count_gt ps t + count_eq ps t)"
  unfolding won_def count_eq_def
  by (induction ns) (auto simp: field_simps)

lemma won_insert: "t \<notin> A \<Longrightarrow> won ps ns (insert t A) = won ps ns {t} + won ps ns A"
  unfolding won_def
  by (induction ns) auto

lemma count_gt_next:
  assumes "\<forall>x \<in> set xs. x \<in> set (t # t' # ts) \<or> t < x" and "sorted_wrt (>) (t # t' # ts)"
  shows "count_gt xs t' = count_ge xs t"
proof -
  have "\<forall>x \<in> set xs. (t' < x) = (t \<le> x)"
    using assms by fastforce
  then have "filter (\<lambda>x. t' < x) xs = filter (\<lambda>x. t \<le> x) xs"
    by (auto intro: filter_cong)
  then show ?thesis
    by (simp add: count_gt_def count_ge_def)
qed

lemma trapezoid_steps:
  assumes "sorted_wrt (>) (t # ts)"
    and "\<forall>x \<in> set ns. x \<in> set (t # ts) \<or> t < x"
    and "\<forall>x \<in> set ps. x \<in> set (t # ts) \<or> t < x"
  shows "2 * auc (count_gt ns t # map (count_ge ns) (t # ts))
                 (count_gt ps t # map (count_ge ps) (t # ts)) = won ps ns (set (t # ts))"
  using assms
proof (induction ts arbitrary: t)
  case Nil
  then show ?case
    by (simp add: count_ge_split won_single field_simps)
next
  case (Cons t' ts)
  have s': "sorted_wrt (>) (t' # ts)"
    using Cons.prems(1) by simp
  have n': "\<forall>x \<in> set ns. x \<in> set (t' # ts) \<or> t' < x"
    using Cons.prems(1,2) by fastforce
  have p': "\<forall>x \<in> set ps. x \<in> set (t' # ts) \<or> t' < x"
    using Cons.prems(1,3) by fastforce
  have gn: "count_gt ns t' = count_ge ns t"
    by (rule count_gt_next [OF Cons.prems(2,1)])
  have gp: "count_gt ps t' = count_ge ps t"
    by (rule count_gt_next [OF Cons.prems(3,1)])
  have fresh: "t \<notin> set (t' # ts)"
    using Cons.prems(1) by auto
  have ih: "2 * auc (count_ge ns t # map (count_ge ns) (t' # ts))
                   (count_ge ps t # map (count_ge ps) (t' # ts)) = won ps ns (set (t' # ts))"
    using Cons.IH [OF s' n' p'] by (simp add: gn gp)
  have "2 * auc (count_gt ns t # map (count_ge ns) (t # t' # ts))
                (count_gt ps t # map (count_ge ps) (t # t' # ts))
      = (count_ge ns t - count_gt ns t) * (count_ge ps t + count_gt ps t)
        + 2 * auc (count_ge ns t # map (count_ge ns) (t' # ts))
                  (count_ge ps t # map (count_ge ps) (t' # ts))"
    by (simp add: field_simps)
  also have "\<dots> = won ps ns {t} + won ps ns (set (t' # ts))"
    unfolding ih by (simp add: won_single count_ge_split field_simps)
  also have "\<dots> = won ps ns (set (t # t' # ts))"
    using won_insert [OF fresh, of ps ns] by simp
  finally show ?case .
qed

lemma thresholds_desc: "sorted_wrt (>) (thresholds s)"
proof -
  have "sorted_wrt (<) (sort (remdups s))"
    by (simp add: strict_sorted_iff)
  then show ?thesis
    unfolding thresholds_def sorted_wrt_rev by simp
qed

lemma set_thresholds: "set (thresholds s) = set s"
  by (simp add: thresholds_def)

lemma set_positives: "length y = length s \<Longrightarrow> set (positives y s) \<subseteq> set s"
  by (auto simp: positives_def dest: set_zip_leftD)

lemma set_negatives: "length y = length s \<Longrightarrow> set (negatives y s) \<subseteq> set s"
  by (auto simp: negatives_def dest: set_zip_leftD)

lemma count_gt_top:
  assumes "sorted_wrt (>) (t # ts)" and "set xs \<subseteq> set (t # ts)"
  shows "count_gt xs t = 0"
proof -
  have "\<forall>x \<in> set xs. \<not> t < x"
    using assms by fastforce
  then have "filter (\<lambda>x. t < x) xs = []"
    by (simp add: filter_empty_conv)
  then show ?thesis
    by (simp add: count_gt_def)
qed

lemma count_ge_last:
  assumes "sorted_wrt (>) ts" and "ts \<noteq> []" and "set xs \<subseteq> set ts"
  shows "last (map (count_ge xs) ts) = of_nat (length xs)"
proof -
  have "\<forall>x \<in> set ts. last ts \<le> x"
    using assms(1,2)
  proof (induction ts)
    case Nil
    then show ?case by simp
  next
    case (Cons a ts)
    then show ?case by (cases ts) (auto simp: less_imp_le)
  qed
  then have "\<forall>x \<in> set xs. last ts \<le> x"
    using assms(3) by blast
  then have "filter (\<lambda>x. last ts \<le> x) xs = xs"
    by (simp add: filter_id_conv)
  then show ?thesis
    using assms(2) by (simp add: last_map count_ge_def)
qed

lemma trapezoid_scale:
  "(x1 / a - x0 / a) * (y1 / b + y0 / b) / 2 = (x1 - x0) * (y1 + y0) / 2 / (a * b)"
  for a b :: rat
  by (simp add: diff_divide_distrib [symmetric] add_divide_distrib [symmetric])

lemma auc_scale: "auc (map (\<lambda>x. x / a) xs) (map (\<lambda>y. y / b) ys) = auc xs ys / (a * b)"
  by (induction xs ys rule: auc.induct) (simp_all add: trapezoid_scale add_divide_distrib)

lemma won_all:
  "set ns \<subseteq> A \<Longrightarrow> won ps ns A = 2 * (\<Sum>n \<leftarrow> ns. \<Sum>p \<leftarrow> ps. kernel p n)"
  unfolding won_def
  by (induction ns) (auto simp: kernel_sum field_simps)

lemma positives_nonempty: "length y = length s \<Longrightarrow> True \<in> set y \<Longrightarrow> positives y s \<noteq> []"
proof (induction y arbitrary: s)
  case Nil
  then show ?case by simp
next
  case (Cons a y)
  then show ?case by (cases s) (auto simp: positives_def)
qed

lemma roc_auc_score_reference:
  assumes len: "length y = length s" and pos: "True \<in> set y" and neg: "False \<in> set y"
  shows "roc_auc_score y s = Inr (reference_auc y s)"
proof -
  define ps where "ps = positives y s"
  define ns where "ns = negatives y s"
  have "s \<noteq> []"
    using len pos by auto
  then obtain t ts where ts: "thresholds s = t # ts"
    using set_thresholds [of s] by (cases "thresholds s") auto
  have desc: "sorted_wrt (>) (t # ts)"
    using thresholds_desc [of s] ts by simp
  have pin: "set ps \<subseteq> set (t # ts)" and nin: "set ns \<subseteq> set (t # ts)"
    using set_positives [OF len] set_negatives [OF len] set_thresholds [of s] ts
    by (auto simp: ps_def ns_def)
  have lastn: "last (map (count_ge ns) (t # ts)) = of_nat (length ns)"
    by (rule count_ge_last [OF desc _ nin]) simp
  have lastp: "last (map (count_ge ps) (t # ts)) = of_nat (length ps)"
    by (rule count_ge_last [OF desc _ pin]) simp
  have "2 * auc (count_gt ns t # map (count_ge ns) (t # ts))
               (count_gt ps t # map (count_ge ps) (t # ts)) = won ps ns (set (t # ts))"
    by (rule trapezoid_steps [OF desc]) (use pin nin in blast)+
  then have area: "auc (0 # map (count_ge ns) (t # ts)) (0 # map (count_ge ps) (t # ts))
      = (\<Sum>n \<leftarrow> ns. \<Sum>p \<leftarrow> ps. kernel p n)"
    using count_gt_top [OF desc pin] count_gt_top [OF desc nin] won_all [OF nin, of ps]
    by simp
  have "(case roc_curve y s of (fpr, tpr) \<Rightarrow> auc fpr tpr)
      = auc (map (\<lambda>f. f / of_nat (length ns)) (0 # map (count_ge ns) (t # ts)))
            (map (\<lambda>t. t / of_nat (length ps)) (0 # map (count_ge ps) (t # ts)))"
    using lastn lastp by (simp add: roc_curve_def Let_def ts ps_def ns_def)
  also have "\<dots> = (\<Sum>n \<leftarrow> ns. \<Sum>p \<leftarrow> ps. kernel p n) / (of_nat (length ns) * of_nat (length ps))"
    unfolding auc_scale area ..
  also have "\<dots> = reference_auc y s"
    by (simp add: reference_auc_def ps_def ns_def mult.commute)
  finally show ?thesis
    using len pos neg by (simp add: roc_auc_score_def)
qed

lemma count_where_nonneg: "0 \<le> count_where P y pred"
  by (simp add: count_where_def)

lemma count_where_predicted:
  "count_where (\<lambda>t p. p) y pred =
     count_where (\<lambda>t p. t \<and> p) y pred + count_where (\<lambda>t p. \<not> t \<and> p) y pred"
proof -
  have "length (filter (\<lambda>(t, p). p) zs) =
      length (filter (\<lambda>(t, p). t \<and> p) zs) + length (filter (\<lambda>(t, p). \<not> t \<and> p) zs)"
    for zs :: "(bool \<times> bool) list"
    by (induction zs) auto
  then show ?thesis
    by (simp add: count_where_def flip: of_nat_add)
qed

lemma count_where_actual:
  "count_where (\<lambda>t p. t) y pred =
     count_where (\<lambda>t p. t \<and> p) y pred + count_where (\<lambda>t p. t \<and> \<not> p) y pred"
proof -
  have "length (filter (\<lambda>(t, p). t) zs) =
      length (filter (\<lambda>(t, p). t \<and> p) zs) + length (filter (\<lambda>(t, p). t \<and> \<not> p) zs)"
    for zs :: "(bool \<times> bool) list"
    by (induction zs) auto
  then show ?thesis
    by (simp add: count_where_def flip: of_nat_add)
qed

lemma harmonic_mean_counts:
  fixes tp fp fn :: rat
  assumes "0 \<le> tp" "0 \<le> fp" "0 \<le> fn"
  shows "(let precision = (if tp + fp = 0 then 0 else tp / (tp + fp));
              recall = (if tp + fn = 0 then 0 else tp / (tp + fn))
          in if precision + recall = 0 then 0 else 2 * precision * recall / (precision + recall))
       = (if 2 * tp + fp + fn = 0 then 0 else 2 * tp / (2 * tp + fp + fn))"
proof (cases "tp = 0")
  case True
  then show ?thesis by (simp add: Let_def)
next
  case False
  with assms have tp: "0 < tp" by simp
  have a: "tp + fp \<noteq> 0" "tp + fn \<noteq> 0" "2 * tp + fp + fn \<noteq> 0"
    using tp assms by auto
  have "0 < tp / (tp + fp)" "0 < tp / (tp + fn)"
    using tp assms by (simp_all add: add_pos_nonneg)
  then have s: "tp / (tp + fp) + tp / (tp + fn) \<noteq> 0"
    by linarith
  define A B where "A = tp + fp" and "B = tp + fn"
  have nz: "A \<noteq> 0" "B \<noteq> 0" "A + B \<noteq> 0" "tp \<noteq> 0"
    using a tp by (auto simp: A_def B_def)
  have sum: "tp / A + tp / B = tp * (A + B) / (A * B)"
    using nz by (simp add: field_simps)
  have nz2: "A * tp + B * tp \<noteq> 0"
    using nz by (simp flip: distrib_right)
  have "2 * (tp / A) * (tp / B) / (tp * (A + B) / (A * B)) = 2 * tp / (A + B)"
    using nz nz2 by (simp add: field_simps)
  then have "2 * (tp / A) * (tp / B) / (tp / A + tp / B) = 2 * tp / (A + B)"
    by (simp add: sum)
  moreover have "A + B = 2 * tp + fp + fn"
    by (simp add: A_def B_def)
  ultimately have "2 * (tp / (tp + fp)) * (tp / (tp + fn)) / (tp / (tp + fp) + tp / (tp + fn))
      = 2 * tp / (2 * tp + fp + fn)"
    by (simp add: A_def B_def)
  then show ?thesis
    using a s by (simp add: Let_def)
qed

lemma f1_score_reference:
  "length y = length pred \<Longrightarrow> f1_score y pred = Inr (reference_f1 y pred)"
  using harmonic_mean_counts [of "count_where (\<lambda>t p. t \<and> p) y pred"
      "count_where (\<lambda>t p. \<not> t \<and> p) y pred" "count_where (\<lambda>t p. t \<and> \<not> p) y pred"]
  by (simp add: f1_score_def reference_f1_def count_where_predicted [of y pred]
      count_where_actual [of y pred] Let_def count_where_nonneg)


lemma label_bools_length: "label_bools cs = Inr bs \<Longrightarrow> length bs = length cs"
  by (induction cs arbitrary: bs) (auto split: if_splits sum.splits)

text \<open>
  For labels that are 0 or 1 with both classes present and one probability per
  label, the evaluation of train.py returns the area under the ROC curve of the
  probabilities themselves, equal to the pair-ranking reference formula, and the F1 score
  of the probabilities thresholded above 0.5, equal to the harmonic mean of precision
  and recall.
\<close>

theorem evaluate_matches_reference:
  assumes "label_bools y_full = Inr y" and "length preds = length y_full"
    and "True \<in> set y" and "False \<in> set y"
  shows "evaluate y_full preds = Inr (reference_auc y preds, reference_f1 y (gt_half preds))"
proof -
  have len: "length y = length preds"
    using label_bools_length [OF assms(1)] assms(2) by simp
  have a: "roc_auc_score y preds = Inr (reference_auc y preds)"
    by (rule roc_auc_score_reference [OF len assms(3,4)])
  have f: "f1_score y (gt_half preds) = Inr (reference_f1 y (gt_half preds))"
    by (rule f1_score_reference) (simp add: len gt_half_def)
  show ?thesis
    by (simp add: evaluate_def assms(1) a f)
qed

text \<open>
  The example of the specification in train.py: labels 0, 1, 1, 0 and probabilities
  0.1, 0.9, 0.4, 0.2 give the AUC 1 and the F1 score 2/3, the values of the reference
  formulas.
\<close>

theorem evaluate_matches_reference_witness:
  "evaluate example_labels example_probs = Inr (1, 2 / 3)
   \<and> reference_auc [False, True, True, False] example_probs = 1
   \<and> reference_f1 [False, True, True, False] (gt_half example_probs) = 2 / 3"
proof -
  have l: "label_bools example_labels = Inr [False, True, True, False]"
    by (simp add: example_labels_def)
  have n: "length example_probs = length example_labels"
    by (simp add: example_labels_def example_probs_def)
  have a: "reference_auc [False, True, True, False] example_probs = 1"
    by code_simp
  have f: "reference_f1 [False, True, True, False] (gt_half example_probs) = 2 / 3"
    by code_simp
  from evaluate_matches_reference [OF l n] a f show ?thesis by simp
qed

text \<open>
  C8. On the example of the specification, labels 0, 1, 1, 0 and probabilities 0.1, 0.9,
  0.4, 0.2, the evaluation of train_model.py does not return the area under the ROC
  curve of the probabilities: it computes both metrics from the predicted classes
  0, 1, 0, 0 and returns the F1 score 2/3 and the AUC 3/4, where the reference value of
  the AUC is 1. The evaluation of train.py returns the AUC 1 and the F1 score 2/3 on
  the same example.
\<close>

theorem class_metrics_from_classes:
  "label_bools example_labels = Inr [False, True, True, False]
   \<and> gt_half example_probs = [False, True, False, False]
   \<and> class_metrics [False, True, True, False] [False, True, False, False] = Inr (2 / 3, 3 / 4)
   \<and> evaluate example_labels example_probs = Inr (1, 2 / 3)
   \<and> reference_auc [False, True, True, False] example_probs = 1"
proof -
  have 1: "label_bools example_labels = Inr [False, True, True, False]"
    by code_simp
  have 2: "gt_half example_probs = [False, True, False, False]"
    by code_simp
  have 3: "class_metrics [False, True, True, False] [False, True, False, False] = Inr (2 / 3, 3 / 4)"
    by code_simp
  have 4: "evaluate example_labels example_probs = Inr (1, 2 / 3)"
    by code_simp
  have 5: "reference_auc [False, True, True, False] example_probs = 1"
    by code_simp
  from 1 2 3 4 5 show ?thesis by simp
qed

end
